theory Spec2Isabelle
  imports Main "HOL-Library.Word"
begin

unbundle bit_operations_syntax

section \<open>frogfs: a read-only filesystem over a packed binary image\<close>

text \<open>
  A shallow embedding of \<^verbatim>\<open>src/frogfs.c\<close>. Pointers into the image are byte offsets
  from \<^verbatim>\<open>fs->head\<close> in 32 bits, the width of the offsets the image stores and of a
  pointer on the ILP32 targets the library is built for. A read of memory that the
  image does not hold is the error \<open>Inl OutOfImage\<close>.
  C strings are lists of \<^typ>\<open>char\<close> (bytes); the string a C function sees in a buffer
  ends before its first NUL byte.
\<close>

type_synonym u8 = "8 word"
type_synonym u16 = "16 word"
type_synonym u32 = "32 word"

subsection \<open>Record layouts of the image\<close>

text \<open>
  Modelled from the spec: the declarations of \<^verbatim>\<open>frogfs_format.h\<close>,
  \<^verbatim>\<open>frogfs_priv.h\<close> and \<^verbatim>\<open>frogfs/frogfs.h\<close> are not part of the sources at hand.
  The fields are the ones \<^verbatim>\<open>frogfs.c\<close> reads, with the widths section 3 of the
  specification gives them.
\<close>

datatype frogfs_entry_type = FROGFS_ENTRY_TYPE_DIR | FROGFS_ENTRY_TYPE_FILE

record frogfs_head_t =
  magic :: u32
  ver_major :: u8
  ver_minor :: u8
  num_entries :: u32
  bin_sz :: u32

record frogfs_hash_t =
  hash :: u32
  offs :: u32

text \<open>
  One record for the three overlaid views \<^verbatim>\<open>frogfs_entry_t\<close>, \<^verbatim>\<open>frogfs_dir_t\<close>,
  \<^verbatim>\<open>frogfs_file_t\<close> and \<^verbatim>\<open>frogfs_comp_t\<close> of an entry. \<open>children\<close> are the child
  offsets the image holds behind a directory's header, and \<open>bytes_from e n\<close> are the
  bytes of the image from byte \<open>n\<close> of the entry on (where \<^verbatim>\<open>frogfs_get_name\<close>
  points).
\<close>

record frogfs_entry_t =
  etype :: frogfs_entry_type
  compression :: u8
  seg_sz :: u16
  parent :: u32
  child_count :: u32
  children :: "u32 list"
  data_sz :: u32
  data_offs :: u32
  real_sz :: u32
  bytes_from :: "nat \<Rightarrow> string"

text \<open>
  Modelled from the spec: the accessor macros of \<^verbatim>\<open>frogfs_format.h\<close>
  (\<open>is_dir\<close>, \<open>is_file\<close>, \<open>is_compressed\<close> of section 4.1) and the compression tags
  of section 3 (0 = none, 1 = DEFLATE, 2 = Heatshrink).
\<close>

definition FROGFS_IS_DIR :: "frogfs_entry_t \<Rightarrow> bool" where
  "FROGFS_IS_DIR e = (etype e = FROGFS_ENTRY_TYPE_DIR)"

definition FROGFS_IS_FILE :: "frogfs_entry_t \<Rightarrow> bool" where
  "FROGFS_IS_FILE e = (etype e = FROGFS_ENTRY_TYPE_FILE)"

definition FROGFS_IS_COMP :: "frogfs_entry_t \<Rightarrow> bool" where
  "FROGFS_IS_COMP e = (etype e = FROGFS_ENTRY_TYPE_FILE \<and> compression e \<noteq> 0)"

definition FROGFS_COMP_ALGO_DEFLATE :: u8 where
  "FROGFS_COMP_ALGO_DEFLATE = 1"

definition FROGFS_COMP_ALGO_HEATSHRINK :: u8 where
  "FROGFS_COMP_ALGO_HEATSHRINK = 2"

text \<open>
  The image in memory: its header, the hash records that follow the header, the
  entry records by image offset, and its bytes by image offset (file payloads).
\<close>

record image =
  img_head :: frogfs_head_t
  img_hash :: "frogfs_hash_t list"
  img_entry :: "u32 \<rightharpoonup> frogfs_entry_t"
  img_byte :: "u32 \<Rightarrow> char"

text \<open>
  Every way a call can end without its result. The C functions return NULL for each
  failure of theirs; the tag says which \<^verbatim>\<open>return\<close> or \<^verbatim>\<open>goto err_out\<close> it was.
  \<open>OutOfImage\<close> is a read of memory the image does not hold and \<open>NullPointer\<close> a
  NULL pointer handed to a function that dereferences it.
\<close>

datatype error =
  OutOfImage | NullPointer
  | CallocFailed | AddrNull | PartitionNotFound | MmapError | BadMagic | VersionMismatch
  | NotAFile | UnsupportedCompression | DriverOpenFailed
  | NotADirectory

subsection \<open>Handles\<close>

record frogfs_fs_t =
  head :: image
  root :: u32
  num_entries :: int

datatype frogfs_decomp_funcs_t =
  frogfs_decomp_raw | frogfs_decomp_deflate | frogfs_decomp_heatshrink

record frogfs_fh_t =
  fh_fs :: frogfs_fs_t
  fh_file :: frogfs_entry_t
  data_start :: u32
  data_ptr :: u32
  fh_data_sz :: u32
  fh_real_sz :: u32
  flags :: u32
  decomp_funcs :: "frogfs_decomp_funcs_t option"

record frogfs_dh_t =
  dh_fs :: frogfs_fs_t
  dir :: "u32 option"
  index :: u16

record frogfs_stat_t =
  st_type :: frogfs_entry_type
  st_compression :: u8
  st_compressed_sz :: u32
  st_size :: u32

record frogfs_config_t =
  addr :: "image option"
  part_label :: "string option"

subsection \<open>Build and platform\<close>

datatype mmap_result = NoPartition | MmapFailed | Mapped image

text \<open>
  What \<^verbatim>\<open>frogfs.c\<close> takes from its build and its platform: whether plain
  \<^verbatim>\<open>char\<close> is signed and how wide \<^verbatim>\<open>unsigned long\<close> is (both fixed by the C
  ABI), \<^verbatim>\<open>PATH_MAX\<close> of \<^verbatim>\<open>limits.h\<close>, the constants of the absent headers, the
  configuration switches, the flash mapping of an \<^verbatim>\<open>ESP_PLATFORM\<close> build
  (\<open>None\<close> on any other build), whether \<^verbatim>\<open>calloc\<close> succeeds, and the hooks of
  the DEFLATE and Heatshrink decompressor tables, whose code is outside the library
  core (\<open>None\<close> for a NULL hook; an \<^verbatim>\<open>open\<close> hook returns \<open>None\<close> for a negative
  result and the handle it leaves otherwise; the other hooks return their result,
  the bytes they put into the buffer, and the handle they leave).
\<close>

record env =
  char_is_signed :: bool
  ULONG_BITS :: nat
  PATH_MAX :: nat
  SIZEOF_HEAD :: u32
  FROGFS_MAGIC :: u32
  FROGFS_VER_MAJOR :: u8
  FROGFS_OPEN_RAW :: u32
  CONFIG_FROGFS_USE_DEFLATE :: bool
  CONFIG_FROGFS_USE_HEATSHRINK :: bool
  esp_mmap :: "(string option \<Rightarrow> mmap_result) option"
  calloc_ok :: bool
  decomp_open :: "frogfs_decomp_funcs_t \<Rightarrow> (frogfs_fh_t \<Rightarrow> u32 \<Rightarrow> frogfs_fh_t option) option"
  decomp_read :: "frogfs_decomp_funcs_t \<Rightarrow> (frogfs_fh_t \<Rightarrow> nat \<Rightarrow> int \<times> string \<times> frogfs_fh_t) option"
  decomp_seek :: "frogfs_decomp_funcs_t \<Rightarrow> (frogfs_fh_t \<Rightarrow> int \<Rightarrow> int \<Rightarrow> int \<times> frogfs_fh_t) option"
  decomp_tell :: "frogfs_decomp_funcs_t \<Rightarrow> (frogfs_fh_t \<Rightarrow> nat) option"

subsection \<open>String hashing\<close>

definition NUL :: char where
  "NUL = CHR 0x00"

text \<open>The string a C function reads from a buffer: the bytes before the first NUL.\<close>

definition c_str :: "string \<Rightarrow> string" where
  "c_str s = takeWhile (\<lambda>c. c \<noteq> NUL) s"

text \<open>
  The value of \<^verbatim>\<open>*s\<close> in \<^verbatim>\<open>hash ^ *s++\<close>: the plain \<^verbatim>\<open>char\<close> is promoted to
  \<^verbatim>\<open>int\<close> and converted to \<^verbatim>\<open>unsigned long\<close>, so a byte of 0x80 and above
  becomes \<open>2 ^ ULONG_BITS - 256 + b\<close> where plain \<^verbatim>\<open>char\<close> is signed.
\<close>

definition char_to_ulong :: "env \<Rightarrow> char \<Rightarrow> nat" where
  "char_to_ulong ev c =
     (if char_is_signed ev \<and> 128 \<le> (of_char c :: nat)
      then 2 ^ ULONG_BITS ev - 256 + of_char c
      else of_char c)"

fun djb2_loop :: "env \<Rightarrow> nat \<Rightarrow> string \<Rightarrow> nat" where
  "djb2_loop ev h [] = h"
| "djb2_loop ev h (c # s) =
     (if c = NUL then h
      else djb2_loop ev
        ((((h * 2 ^ 5) mod 2 ^ ULONG_BITS ev + h) mod 2 ^ ULONG_BITS ev) XOR char_to_ulong ev c) s)"

definition djb2_hash :: "env \<Rightarrow> string \<Rightarrow> u32" where
  "djb2_hash ev s = word_of_nat (djb2_loop ev 5381 s)"

text \<open>
  The djb2-XOR hash as the specification words it: \<open>h := 5381\<close>, then
  \<open>h := ((h << 5) + h) XOR b\<close> for each byte \<open>b\<close> as its unsigned value, in 32 bits.
\<close>

definition djb2_xor_step :: "u32 \<Rightarrow> char \<Rightarrow> u32" where
  "djb2_xor_step h b = (push_bit 5 h + h) XOR of_char b"

definition djb2_xor :: "string \<Rightarrow> u32" where
  "djb2_xor s = foldl djb2_xor_step 5381 s"

subsection \<open>Entry metadata\<close>

text \<open>
  \<^verbatim>\<open>frogfs_stat\<close> and \<^verbatim>\<open>frogfs_open\<close> read one entry only: they take the record their
  \<^verbatim>\<open>entry\<close> pointer refers to. \<^verbatim>\<open>memset\<close> clears the result first; both branches
  then store \<open>st_type\<close>.
\<close>

definition frogfs_stat :: "frogfs_entry_t \<Rightarrow> frogfs_stat_t" where
  "frogfs_stat entry =
     (let st = \<lparr>st_type = FROGFS_ENTRY_TYPE_DIR, st_compression = 0,
                 st_compressed_sz = 0, st_size = 0\<rparr>
      in if FROGFS_IS_DIR entry then st\<lparr>st_type := FROGFS_ENTRY_TYPE_DIR\<rparr>
         else
           (let st1 = st\<lparr>st_type := FROGFS_ENTRY_TYPE_FILE, st_compression := compression entry\<rparr>
            in if st_compression st1 \<noteq> 0
               then st1\<lparr>st_compressed_sz := data_sz entry, st_size := real_sz entry\<rparr>
               else st1\<lparr>st_compressed_sz := data_sz entry, st_size := data_sz entry\<rparr>))"

subsection \<open>Binding an image\<close>

definition SIZEOF_HASH :: u32 where
  "SIZEOF_HASH = 8"

text \<open>
  \<^verbatim>\<open>frogfs_init\<close>. \<^verbatim>\<open>fs->num_entries\<close> is an \<^verbatim>\<open>int\<close>: the header's 32-bit count
  read as signed. \<^verbatim>\<open>fs->hash\<close> is the image's own hash table and needs no field.
\<close>

definition frogfs_init :: "env \<Rightarrow> frogfs_config_t \<Rightarrow> error + frogfs_fs_t" where
  "frogfs_init ev conf =
     (if \<not> calloc_ok ev then Inl CallocFailed
      else
        (case (case addr conf of
                 Some img \<Rightarrow> Inr img
               | None \<Rightarrow>
                   (case esp_mmap ev of
                      None \<Rightarrow> Inl AddrNull
                    | Some mmap \<Rightarrow>
                        (case mmap (part_label conf) of
                           NoPartition \<Rightarrow> Inl PartitionNotFound
                         | MmapFailed \<Rightarrow> Inl MmapError
                         | Mapped img \<Rightarrow> Inr img))) of
           Inl err \<Rightarrow> Inl err
         | Inr img \<Rightarrow>
             if magic (img_head img) \<noteq> FROGFS_MAGIC ev then Inl BadMagic
             else if ver_major (img_head img) \<noteq> FROGFS_VER_MAJOR ev then Inl VersionMismatch
             else Inr \<lparr>head = img,
                       root = SIZEOF_HEAD ev + SIZEOF_HASH * frogfs_head_t.num_entries (img_head img),
                       num_entries = sint (frogfs_head_t.num_entries (img_head img))\<rparr>))"

subsection \<open>Path reconstruction\<close>

definition entry_at :: "frogfs_fs_t \<Rightarrow> u32 \<Rightarrow> error + frogfs_entry_t" where
  "entry_at fs p = (case img_entry (head fs) p of None \<Rightarrow> Inl OutOfImage | Some e \<Rightarrow> Inr e)"

definition hash_at :: "frogfs_fs_t \<Rightarrow> int \<Rightarrow> error + frogfs_hash_t" where
  "hash_at fs i =
     (if 0 \<le> i \<and> i < int (length (img_hash (head fs)))
      then Inr (img_hash (head fs) ! nat i) else Inl OutOfImage)"

definition frogfs_get_name :: "frogfs_entry_t \<Rightarrow> string" where
  "frogfs_get_name entry =
     (if FROGFS_IS_DIR entry then bytes_from entry (8 + unat (child_count entry) * 4)
      else if FROGFS_IS_FILE entry \<and> \<not> FROGFS_IS_COMP entry then bytes_from entry 16
      else bytes_from entry 20)"

text \<open>The \<^verbatim>\<open>seg_sz\<close> bytes that \<^verbatim>\<open>memcpy\<close> reads at \<^verbatim>\<open>frogfs_get_name(entry)\<close>.\<close>

definition name_bytes :: "frogfs_entry_t \<Rightarrow> error + string" where
  "name_bytes entry =
     (if unat (seg_sz entry) \<le> length (frogfs_get_name entry)
      then Inr (take (unat (seg_sz entry)) (frogfs_get_name entry)) else Inl OutOfImage)"

text \<open>
  The loop of \<^verbatim>\<open>frogfs_get_path\<close>. \<open>path\<close> is the first \<open>len\<close> bytes of the buffer;
  \<^verbatim>\<open>calloc\<close> zeroed the rest and the loop keeps its writes below \<^verbatim>\<open>PATH_MAX - 1\<close>.
  \<^verbatim>\<open>entry = parent\<close> is followed by the read of \<^verbatim>\<open>entry->parent\<close> in the loop
  test, so the parent's record is read when the pointer is stored. \<^verbatim>\<open>PATH_MAX\<close> is
  taken to be at least 1, so that \<^verbatim>\<open>PATH_MAX - 1\<close> is the same number in C and here.
\<close>

function get_path_loop ::
  "env \<Rightarrow> frogfs_fs_t \<Rightarrow> string \<Rightarrow> nat \<Rightarrow> frogfs_entry_t \<Rightarrow> error + string" where
  "get_path_loop ev fs path len entry =
     (if parent entry \<noteq> 0 \<and> len + unat (seg_sz entry) + 1 < PATH_MAX ev - 1 then
        (if parent entry = root fs then
           (case name_bytes entry of
              Inl err \<Rightarrow> Inl err
            | Inr seg \<Rightarrow> Inr (seg @ path))
         else
           (case name_bytes entry of
              Inl err \<Rightarrow> Inl err
            | Inr seg \<Rightarrow>
                (case entry_at fs (parent entry) of
                   Inl err \<Rightarrow> Inl err
                 | Inr parent_entry \<Rightarrow>
                     get_path_loop ev fs (CHR ''/'' # seg @ path)
                       (len + unat (seg_sz entry) + 1) parent_entry)))
      else Inr path)"
  by pat_completeness auto
termination
  by (relation "measure (\<lambda>(ev, fs, path, len, entry). PATH_MAX ev - len)") auto

declare get_path_loop.simps [simp del]

text \<open>\<^verbatim>\<open>frogfs_get_path\<close>: \<open>Inr None\<close> is the NULL it returns when \<^verbatim>\<open>calloc\<close> fails.\<close>

definition frogfs_get_path :: "env \<Rightarrow> frogfs_fs_t \<Rightarrow> u32 \<Rightarrow> error + string option" where
  "frogfs_get_path ev fs entry_p =
     (if \<not> calloc_ok ev then Inr None
      else
        (case entry_at fs entry_p of
           Inl err \<Rightarrow> Inl err
         | Inr entry \<Rightarrow>
             if parent entry = 0 then Inr (Some [])
             else
               (case get_path_loop ev fs [] 0 entry of
                  Inl err \<Rightarrow> Inl err
                | Inr path \<Rightarrow> Inr (Some path))))"

subsection \<open>Path resolution\<close>

text \<open>
  The binary search of \<^verbatim>\<open>frogfs_get_entry\<close>, returning \<^verbatim>\<open>first\<close>, \<^verbatim>\<open>last\<close> and
  \<^verbatim>\<open>middle\<close> as the loop leaves them. \<^verbatim>\<open>e\<close> is \<^verbatim>\<open>&fs->hash[middle]\<close> whenever the
  body has run; it is kept as an index into the hash table. \<^verbatim>\<open>middle\<close> has no
  value before the body has run, and is not read then: \<^verbatim>\<open>frogfs_get_entry\<close>
  returns at \<^verbatim>\<open>first > last\<close>. The indices are \<^verbatim>\<open>int\<close>s between \<open>-1\<close> and
  \<^verbatim>\<open>num_entries\<close>.
\<close>

function bsearch_loop ::
  "frogfs_fs_t \<Rightarrow> u32 \<Rightarrow> int \<Rightarrow> int \<Rightarrow> int \<Rightarrow> error + int \<times> int \<times> int" where
  "bsearch_loop fs h first last' middle =
     (if first \<le> last' then
        (let middle' = first + (last' - first) div 2 in
         case hash_at fs middle' of
           Inl err \<Rightarrow> Inl err
         | Inr e \<Rightarrow>
             if hash e = h then Inr (first, last', middle')
             else if hash e < h then bsearch_loop fs h (middle' + 1) last' middle'
             else bsearch_loop fs h first (middle' - 1) middle')
      else Inr (first, last', middle))"
  by pat_completeness auto
termination
  by (relation "measure (\<lambda>(fs, h, first, last', middle). nat (last' - first + 1))") auto

declare bsearch_loop.simps [simp del]

text \<open>"move e to the first match": \<^verbatim>\<open>e\<close> is stored before \<^verbatim>\<open>middle\<close> is decremented.\<close>

function rewind_loop :: "frogfs_fs_t \<Rightarrow> u32 \<Rightarrow> int \<Rightarrow> int \<Rightarrow> error + int \<times> int" where
  "rewind_loop fs h middle e =
     (if middle > 0 then
        (let e' = middle in
         case hash_at fs (e' - 1) of
           Inl err \<Rightarrow> Inl err
         | Inr prev \<Rightarrow>
             if hash prev \<noteq> h then Inr (middle, e')
             else rewind_loop fs h (middle - 1) e')
      else Inr (middle, e))"
  by pat_completeness auto
termination
  by (relation "measure (\<lambda>(fs, h, middle, e). nat middle)") auto

declare rewind_loop.simps [simp del]

text \<open>
  "walk through canidates and look for a match": the \<^verbatim>\<open>do ... while\<close> loop. It
  increments \<^verbatim>\<open>entry\<close> and \<^verbatim>\<open>middle\<close>; \<^verbatim>\<open>e\<close> stays where it is, and \<^verbatim>\<open>entry\<close>
  is assigned from \<^verbatim>\<open>e->offs\<close> again at the top of the body. \<^verbatim>\<open>strcmp\<close> of a NULL
  \<^verbatim>\<open>match\<close> is \<open>NullPointer\<close>.
\<close>

function walk_loop ::
  "env \<Rightarrow> frogfs_fs_t \<Rightarrow> string \<Rightarrow> u32 \<Rightarrow> int \<Rightarrow> int \<Rightarrow> int \<Rightarrow> error + u32 option" where
  "walk_loop ev fs path h last' middle e =
     (case hash_at fs e of
        Inl err \<Rightarrow> Inl err
      | Inr he \<Rightarrow>
          (case frogfs_get_path ev fs (offs he) of
             Inl err \<Rightarrow> Inl err
           | Inr None \<Rightarrow> Inl NullPointer
           | Inr (Some match) \<Rightarrow>
               if c_str path = c_str match then Inr (Some (offs he))
               else if middle + 1 < last' \<and> hash he = h
                 then walk_loop ev fs path h last' (middle + 1) e
                 else Inr None))"
  by pat_completeness auto
termination
  by (relation "measure (\<lambda>(ev, fs, path, h, last', middle, e). nat (last' - middle))") auto

declare walk_loop.simps [simp del]

text \<open>
  \<^verbatim>\<open>frogfs_get_entry\<close>: \<open>Inr None\<close> is the NULL of "no match" and of "unable to find
  entry", \<open>Inr (Some p)\<close> the entry at image offset \<open>p\<close>.
\<close>

definition frogfs_get_entry :: "env \<Rightarrow> frogfs_fs_t \<Rightarrow> string \<Rightarrow> error + u32 option" where
  "frogfs_get_entry ev fs path0 =
     (let path = dropWhile (\<lambda>c. c = CHR ''/'') path0;
          h = djb2_hash ev path
      in case bsearch_loop fs h 0 (num_entries fs - 1) 0 of
           Inl err \<Rightarrow> Inl err
         | Inr (first, last', middle) \<Rightarrow>
             if first > last' then Inr None
             else
               (case rewind_loop fs h middle middle of
                  Inl err \<Rightarrow> Inl err
                | Inr (middle', e) \<Rightarrow> walk_loop ev fs path h last' middle' e))"

subsection \<open>File handles\<close>

text \<open>The table \<^verbatim>\<open>fh->decomp_funcs\<close> points at, chosen by \<^verbatim>\<open>frogfs_open\<close>.\<close>

definition select_decomp ::
  "env \<Rightarrow> frogfs_entry_t \<Rightarrow> u32 \<Rightarrow> frogfs_fh_t \<Rightarrow> error + frogfs_fh_t" where
  "select_decomp ev entry flgs fh =
     (if compression entry = 0 \<or> flgs AND FROGFS_OPEN_RAW ev \<noteq> 0
      then Inr (fh\<lparr>fh_real_sz := data_sz entry, decomp_funcs := Some frogfs_decomp_raw\<rparr>)
      else if CONFIG_FROGFS_USE_DEFLATE ev \<and> compression entry = FROGFS_COMP_ALGO_DEFLATE
      then Inr (fh\<lparr>fh_real_sz := real_sz entry, decomp_funcs := Some frogfs_decomp_deflate\<rparr>)
      else if CONFIG_FROGFS_USE_HEATSHRINK ev \<and> compression entry = FROGFS_COMP_ALGO_HEATSHRINK
      then Inr (fh\<lparr>fh_real_sz := real_sz entry, decomp_funcs := Some frogfs_decomp_heatshrink\<rparr>)
      else Inl UnsupportedCompression)"

text \<open>
  Modelled from the spec: the Raw driver \<^verbatim>\<open>frogfs_decomp_raw\<close>, whose code is not
  part of the sources at hand (section 4.5: it holds a cursor in the payload,
  \<open>read\<close> copies min(requested, remaining) bytes, \<open>seek\<close> supports set/cur/end and
  clamps to the size; section 8: a read past the end returns 0). It holds no decoder
  state, so its table has no \<open>open\<close> hook. A seek to before the start is clamped to
  the start, and a \<^verbatim>\<open>whence\<close> other than 0 (set), 1 (cur) and 2 (end) fails with -1.
\<close>

definition raw_pos :: "frogfs_fh_t \<Rightarrow> nat" where
  "raw_pos fh = unat (data_ptr fh - data_start fh)"

definition raw_read :: "frogfs_fh_t \<Rightarrow> nat \<Rightarrow> int \<times> string \<times> frogfs_fh_t" where
  "raw_read fh len =
     (let n = min len (unat (fh_data_sz fh) - raw_pos fh)
      in (int n,
          map (\<lambda>i. img_byte (head (fh_fs fh)) (data_ptr fh + word_of_nat i)) [0..<n],
          fh\<lparr>data_ptr := data_ptr fh + word_of_nat n\<rparr>))"

definition raw_seek :: "frogfs_fh_t \<Rightarrow> int \<Rightarrow> int \<Rightarrow> int \<times> frogfs_fh_t" where
  "raw_seek fh offset mode =
     (if mode = 0 \<or> mode = 1 \<or> mode = 2 then
        (let base = (if mode = 0 then 0 else if mode = 1 then int (raw_pos fh)
                     else uint (fh_data_sz fh));
             new_pos = max 0 (min (base + offset) (uint (fh_data_sz fh)))
         in (new_pos, fh\<lparr>data_ptr := data_start fh + word_of_int new_pos\<rparr>))
      else (- 1, fh))"

definition raw_tell :: "frogfs_fh_t \<Rightarrow> nat" where
  "raw_tell fh = raw_pos fh"

text \<open>The hooks of a decompressor table.\<close>

definition funcs_open ::
  "env \<Rightarrow> frogfs_decomp_funcs_t \<Rightarrow> (frogfs_fh_t \<Rightarrow> u32 \<Rightarrow> frogfs_fh_t option) option" where
  "funcs_open ev d = (case d of frogfs_decomp_raw \<Rightarrow> None | _ \<Rightarrow> decomp_open ev d)"

definition funcs_read ::
  "env \<Rightarrow> frogfs_decomp_funcs_t \<Rightarrow> (frogfs_fh_t \<Rightarrow> nat \<Rightarrow> int \<times> string \<times> frogfs_fh_t) option" where
  "funcs_read ev d = (case d of frogfs_decomp_raw \<Rightarrow> Some raw_read | _ \<Rightarrow> decomp_read ev d)"

definition funcs_seek ::
  "env \<Rightarrow> frogfs_decomp_funcs_t \<Rightarrow> (frogfs_fh_t \<Rightarrow> int \<Rightarrow> int \<Rightarrow> int \<times> frogfs_fh_t) option" where
  "funcs_seek ev d = (case d of frogfs_decomp_raw \<Rightarrow> Some raw_seek | _ \<Rightarrow> decomp_seek ev d)"

definition funcs_tell :: "env \<Rightarrow> frogfs_decomp_funcs_t \<Rightarrow> (frogfs_fh_t \<Rightarrow> nat) option" where
  "funcs_tell ev d = (case d of frogfs_decomp_raw \<Rightarrow> Some raw_tell | _ \<Rightarrow> decomp_tell ev d)"

text \<open>
  The end of \<^verbatim>\<open>frogfs_open\<close>: the table's \<^verbatim>\<open>open\<close> hook, when it has one, is run on
  the handle, and a negative result fails the call.
\<close>

definition run_open_hook :: "env \<Rightarrow> frogfs_fh_t \<Rightarrow> u32 \<Rightarrow> error + frogfs_fh_t" where
  "run_open_hook ev fh flgs =
     (case decomp_funcs fh of
        None \<Rightarrow> Inl NullPointer
      | Some d \<Rightarrow>
          (case funcs_open ev d of
             None \<Rightarrow> Inr fh
           | Some hook \<Rightarrow>
               (case hook fh flgs of
                  None \<Rightarrow> Inl DriverOpenFailed
                | Some fh' \<Rightarrow> Inr fh')))"

text \<open>
  \<^verbatim>\<open>frogfs_open\<close>. The handle comes zeroed from \<^verbatim>\<open>calloc\<close>; \<^verbatim>\<open>fh->data_start\<close> is
  the payload's image offset.
\<close>

definition frogfs_open ::
  "env \<Rightarrow> frogfs_fs_t \<Rightarrow> frogfs_entry_t \<Rightarrow> u32 \<Rightarrow> error + frogfs_fh_t" where
  "frogfs_open ev fs entry flgs =
     (if FROGFS_IS_DIR entry then Inl NotAFile
      else if \<not> calloc_ok ev then Inl CallocFailed
      else
        (case select_decomp ev entry flgs
                \<lparr>fh_fs = fs, fh_file = entry, data_start = data_offs entry,
                 data_ptr = data_offs entry, fh_data_sz = data_sz entry, fh_real_sz = 0,
                 flags = flgs, decomp_funcs = None\<rparr> of
           Inl err \<Rightarrow> Inl err
         | Inr fh \<Rightarrow> run_open_hook ev fh flgs))"

text \<open>
  \<^verbatim>\<open>frogfs_read\<close>, \<^verbatim>\<open>frogfs_seek\<close> and \<^verbatim>\<open>frogfs_tell\<close> route to the table's hook and
  return -1 without one (\<^verbatim>\<open>frogfs_tell\<close> returns a \<^verbatim>\<open>size_t\<close>: its -1 is kept as the
  integer -1 here).
\<close>

definition frogfs_read ::
  "env \<Rightarrow> frogfs_fh_t \<Rightarrow> nat \<Rightarrow> error + int \<times> string \<times> frogfs_fh_t" where
  "frogfs_read ev fh len =
     (case decomp_funcs fh of
        None \<Rightarrow> Inl NullPointer
      | Some d \<Rightarrow>
          (case funcs_read ev d of
             Some hook \<Rightarrow> Inr (hook fh len)
           | None \<Rightarrow> Inr (- 1, [], fh)))"

definition frogfs_seek ::
  "env \<Rightarrow> frogfs_fh_t \<Rightarrow> int \<Rightarrow> int \<Rightarrow> error + int \<times> frogfs_fh_t" where
  "frogfs_seek ev fh offset mode =
     (case decomp_funcs fh of
        None \<Rightarrow> Inl NullPointer
      | Some d \<Rightarrow>
          (case funcs_seek ev d of
             Some hook \<Rightarrow> Inr (hook fh offset mode)
           | None \<Rightarrow> Inr (- 1, fh)))"

definition frogfs_tell :: "env \<Rightarrow> frogfs_fh_t \<Rightarrow> error + int" where
  "frogfs_tell ev fh =
     (case decomp_funcs fh of
        None \<Rightarrow> Inl NullPointer
      | Some d \<Rightarrow>
          (case funcs_tell ev d of
             Some hook \<Rightarrow> Inr (int (hook fh))
           | None \<Rightarrow> Inr (- 1)))"

subsection \<open>Directory handles\<close>

text \<open>
  \<^verbatim>\<open>frogfs_opendir\<close>: \<open>entry\<close> is the pointer it is given, \<open>None\<close> for NULL. The
  handle comes zeroed from \<^verbatim>\<open>calloc\<close>, so \<^verbatim>\<open>index\<close> starts at 0.
\<close>

definition frogfs_opendir ::
  "env \<Rightarrow> frogfs_fs_t \<Rightarrow> u32 option \<Rightarrow> error + frogfs_dh_t" where
  "frogfs_opendir ev fs entry =
     (case (case entry of
              None \<Rightarrow> Inr False
            | Some p \<Rightarrow>
                (case entry_at fs p of Inl err \<Rightarrow> Inl err | Inr e \<Rightarrow> Inr (FROGFS_IS_FILE e))) of
        Inl err \<Rightarrow> Inl err
      | Inr is_file \<Rightarrow>
          if is_file then Inl NotADirectory
          else if \<not> calloc_ok ev then Inl CallocFailed
          else Inr \<lparr>dh_fs = fs,
                    dir = (case entry of None \<Rightarrow> Some (root fs) | Some p \<Rightarrow> Some p),
                    index = 0\<rparr>)"

text \<open>
  \<^verbatim>\<open>frogfs_readdir\<close> returns the child's pointer (\<open>None\<close> for NULL) and the handle as
  it leaves it.
\<close>

definition frogfs_readdir :: "frogfs_dh_t \<Rightarrow> error + u32 option \<times> frogfs_dh_t" where
  "frogfs_readdir dh =
     (case dir dh of
        None \<Rightarrow> Inr (None, dh)
      | Some d \<Rightarrow>
          (case entry_at (dh_fs dh) d of
             Inl err \<Rightarrow> Inl err
           | Inr de \<Rightarrow>
               if unat (index dh) < unat (child_count de) then
                 (if unat (index dh) < length (children de)
                  then Inr (Some (children de ! unat (index dh)), dh\<lparr>index := index dh + 1\<rparr>)
                  else Inl OutOfImage)
               else Inr (None, dh)))"

definition frogfs_rewinddir :: "frogfs_dh_t \<Rightarrow> frogfs_dh_t" where
  "frogfs_rewinddir dh = dh\<lparr>index := 0\<rparr>"

text \<open>
  The loop of \<^verbatim>\<open>frogfs_seekdir\<close>. It has no bound of its own: \<open>None\<close> is the loop
  that never ends, \<open>Some\<close> the state it ends in.
\<close>

partial_function (option) seekdir_loop :: "frogfs_dh_t \<Rightarrow> u16 \<Rightarrow> (error + frogfs_dh_t) option" where
  "seekdir_loop dh loc =
     (if index dh < loc then
        (case frogfs_readdir dh of
           Inl err \<Rightarrow> Some (Inl err)
         | Inr r \<Rightarrow> seekdir_loop (snd r) loc)
      else Some (Inr dh))"

definition frogfs_seekdir :: "frogfs_dh_t \<Rightarrow> u16 \<Rightarrow> (error + frogfs_dh_t) option" where
  "frogfs_seekdir dh loc = seekdir_loop (frogfs_rewinddir dh) loc"

definition frogfs_telldir :: "frogfs_dh_t \<Rightarrow> u16" where
  "frogfs_telldir dh = index dh"

subsection \<open>Sequences of calls\<close>

text \<open>A client's calls on a directory handle, run in order until one fails.\<close>

datatype dir_op = ReadDir | RewindDir | TellDir

fun dh_run :: "frogfs_dh_t \<Rightarrow> dir_op list \<Rightarrow> error + frogfs_dh_t" where
  "dh_run dh [] = Inr dh"
| "dh_run dh (ReadDir # ops) =
     (case frogfs_readdir dh of Inl err \<Rightarrow> Inl err | Inr r \<Rightarrow> dh_run (snd r) ops)"
| "dh_run dh (RewindDir # ops) = dh_run (frogfs_rewinddir dh) ops"
| "dh_run dh (TellDir # ops) = dh_run dh ops"

text \<open>
  A client's calls on a file handle and what each returns: the results of
  \<^verbatim>\<open>frogfs_read\<close> (count and bytes), \<^verbatim>\<open>frogfs_seek\<close> and \<^verbatim>\<open>frogfs_tell\<close>.
\<close>

datatype fh_op = Read nat | Seek int int | Tell

datatype fh_result = ReadResult int string | SeekResult int | TellResult int

fun fh_run :: "env \<Rightarrow> frogfs_fh_t \<Rightarrow> fh_op list \<Rightarrow> error + fh_result list" where
  "fh_run ev fh [] = Inr []"
| "fh_run ev fh (Read len # ops) =
     (case frogfs_read ev fh len of
        Inl err \<Rightarrow> Inl err
      | Inr (n, buf, fh') \<Rightarrow>
          (case fh_run ev fh' ops of
             Inl err \<Rightarrow> Inl err
           | Inr rs \<Rightarrow> Inr (ReadResult n buf # rs)))"
| "fh_run ev fh (Seek offset mode # ops) =
     (case frogfs_seek ev fh offset mode of
        Inl err \<Rightarrow> Inl err
      | Inr (pos, fh') \<Rightarrow>
          (case fh_run ev fh' ops of
             Inl err \<Rightarrow> Inl err
           | Inr rs \<Rightarrow> Inr (SeekResult pos # rs)))"
| "fh_run ev fh (Tell # ops) =
     (case frogfs_tell ev fh of
        Inl err \<Rightarrow> Inl err
      | Inr pos \<Rightarrow>
          (case fh_run ev fh ops of
             Inl err \<Rightarrow> Inl err
           | Inr rs \<Rightarrow> Inr (TellResult pos # rs)))"

subsection \<open>Example builds and images\<close>

text \<open>
  Two builds: an ILP32 target whose plain \<^verbatim>\<open>char\<close> is unsigned, and an LP64 host
  whose plain \<^verbatim>\<open>char\<close> is signed. Both have DEFLATE compiled in and Heatshrink left
  out, and DEFLATE hooks that do nothing.
\<close>

definition target_env :: env where
  "target_env =
     \<lparr>char_is_signed = False, ULONG_BITS = 32, PATH_MAX = 4096, SIZEOF_HEAD = 16,
      FROGFS_MAGIC = 0x474F5246, FROGFS_VER_MAJOR = 1, FROGFS_OPEN_RAW = 1,
      CONFIG_FROGFS_USE_DEFLATE = True, CONFIG_FROGFS_USE_HEATSHRINK = False,
      esp_mmap = None, calloc_ok = True,
      decomp_open = (\<lambda>d. None), decomp_read = (\<lambda>d. None),
      decomp_seek = (\<lambda>d. None), decomp_tell = (\<lambda>d. None)\<rparr>"

definition host_env :: env where
  "host_env = target_env\<lparr>char_is_signed := True, ULONG_BITS := 64\<rparr>"

definition mk_file :: "string \<Rightarrow> u32 \<Rightarrow> u8 \<Rightarrow> u32 \<Rightarrow> u32 \<Rightarrow> u32 \<Rightarrow> frogfs_entry_t" where
  "mk_file nm p tag sz doffs rsz =
     \<lparr>etype = FROGFS_ENTRY_TYPE_FILE, compression = tag, seg_sz = word_of_nat (length nm),
      parent = p, child_count = 0, children = [], data_sz = sz, data_offs = doffs,
      real_sz = rsz,
      bytes_from = (\<lambda>n. if n = (if tag = 0 then 16 else 20) then nm @ [NUL] else [])\<rparr>"

definition mk_dir :: "string \<Rightarrow> u32 \<Rightarrow> u32 list \<Rightarrow> frogfs_entry_t" where
  "mk_dir nm p cs =
     \<lparr>etype = FROGFS_ENTRY_TYPE_DIR, compression = 0, seg_sz = word_of_nat (length nm),
      parent = p, child_count = word_of_nat (length cs), children = cs, data_sz = 0,
      data_offs = 0, real_sz = 0,
      bytes_from = (\<lambda>n. if n = 8 + length cs * 4 then nm @ [NUL] else [])\<rparr>"

text \<open>
  An image of the root and the two files \<open>ap\<close> and \<open>g6\<close>, whose paths have the same
  hash 5860916. The root follows the three hash records at offset 40.
\<close>

definition tie_image :: image where
  "tie_image =
     \<lparr>img_head = \<lparr>magic = 0x474F5246, ver_major = 1, ver_minor = 0, num_entries = 3,
                   bin_sz = 112\<rparr>,
      img_hash = [\<lparr>hash = 5381, offs = 40\<rparr>, \<lparr>hash = 5860916, offs = 60\<rparr>,
                  \<lparr>hash = 5860916, offs = 80\<rparr>],
      img_entry = [40 \<mapsto> mk_dir [] 0 [60, 80],
                   60 \<mapsto> mk_file ''ap'' 40 0 4 100 0,
                   80 \<mapsto> mk_file ''g6'' 40 0 4 104 0],
      img_byte = (\<lambda>p. CHR ''x'')\<rparr>"

definition tie_fs :: frogfs_fs_t where
  "tie_fs = \<lparr>head = tie_image, root = 40, num_entries = 3\<rparr>"

text \<open>
  An image whose header counts a million entries while the image ends after its
  16-byte header.
\<close>

definition short_image :: image where
  "short_image =
     \<lparr>img_head = \<lparr>magic = 0x474F5246, ver_major = 1, ver_minor = 0, num_entries = 1000000,
                   bin_sz = 16\<rparr>,
      img_hash = [], img_entry = Map.empty, img_byte = (\<lambda>p. NUL)\<rparr>"

text \<open>
  An image whose hash table holds a record for the file \<open>ap\<close> and none for the root
  directory at offset 24.
\<close>

definition unindexed_image :: image where
  "unindexed_image =
     \<lparr>img_head = \<lparr>magic = 0x474F5246, ver_major = 1, ver_minor = 0, num_entries = 1,
                   bin_sz = 64\<rparr>,
      img_hash = [\<lparr>hash = 5860916, offs = 40\<rparr>],
      img_entry = [24 \<mapsto> mk_dir [] 0 [40], 40 \<mapsto> mk_file ''ap'' 24 0 4 60 0],
      img_byte = (\<lambda>p. CHR ''x'')\<rparr>"

definition unindexed_fs :: frogfs_fs_t where
  "unindexed_fs = \<lparr>head = unindexed_image, root = 24, num_entries = 1\<rparr>"

text \<open>
  An image of the root and the file \<open>uukgacke\<close>, whose path has the hash 5381 of the
  empty path; the file's hash record stands before the root's.
\<close>

definition shadow_image :: image where
  "shadow_image =
     \<lparr>img_head = \<lparr>magic = 0x474F5246, ver_major = 1, ver_minor = 0, num_entries = 2,
                   bin_sz = 80\<rparr>,
      img_hash = [\<lparr>hash = 5381, offs = 48\<rparr>, \<lparr>hash = 5381, offs = 32\<rparr>],
      img_entry = [32 \<mapsto> mk_dir [] 0 [48], 48 \<mapsto> mk_file ''uukgacke'' 32 0 4 76 0],
      img_byte = (\<lambda>p. CHR ''x'')\<rparr>"

definition shadow_fs :: frogfs_fs_t where
  "shadow_fs = \<lparr>head = shadow_image, root = 32, num_entries = 2\<rparr>"

text \<open>An image of the root alone, and one whose major version is 2.\<close>

definition root_image :: image where
  "root_image =
     \<lparr>img_head = \<lparr>magic = 0x474F5246, ver_major = 1, ver_minor = 0, num_entries = 1,
                   bin_sz = 36\<rparr>,
      img_hash = [\<lparr>hash = 5381, offs = 24\<rparr>],
      img_entry = [24 \<mapsto> mk_dir [] 0 []],
      img_byte = (\<lambda>p. NUL)\<rparr>"

definition root_fs :: frogfs_fs_t where
  "root_fs = \<lparr>head = root_image, root = 24, num_entries = 1\<rparr>"

definition v2_image :: image where
  "v2_image = root_image\<lparr>img_head := (img_head root_image)\<lparr>ver_major := 2\<rparr>\<rparr>"

definition bad_magic_image :: image where
  "bad_magic_image = v2_image\<lparr>img_head := (img_head v2_image)\<lparr>magic := 0\<rparr>\<rparr>"

text \<open>A directory handle on the root of \<open>tie_image\<close>, which has two children.\<close>

definition tie_dh :: frogfs_dh_t where
  "tie_dh = \<lparr>dh_fs = tie_fs, dir = Some 40, index = 0\<rparr>"

section \<open>Properties\<close>

subsection \<open>Entry metadata\<close>

text \<open>
  C7. For every entry, \<open>frogfs_stat\<close> reports: for a directory, the directory type and
  both sizes zero; for an uncompressed file, the file type and both sizes equal to
  \<open>data_sz\<close>; for a compressed file, the file type, the logical size \<open>real_sz\<close>, the
  compressed size \<open>data_sz\<close>, and the entry's compression tag.
\<close>

theorem frogfs_stat_sizes:
  "(FROGFS_IS_DIR entry \<longrightarrow>
      st_type (frogfs_stat entry) = FROGFS_ENTRY_TYPE_DIR \<and>
      st_size (frogfs_stat entry) = 0 \<and> st_compressed_sz (frogfs_stat entry) = 0) \<and>
   (FROGFS_IS_FILE entry \<and> compression entry = 0 \<longrightarrow>
      st_type (frogfs_stat entry) = FROGFS_ENTRY_TYPE_FILE \<and>
      st_size (frogfs_stat entry) = data_sz entry \<and>
      st_compressed_sz (frogfs_stat entry) = data_sz entry \<and>
      st_compression (frogfs_stat entry) = 0) \<and>
   (FROGFS_IS_FILE entry \<and> compression entry \<noteq> 0 \<longrightarrow>
      st_type (frogfs_stat entry) = FROGFS_ENTRY_TYPE_FILE \<and>
      st_size (frogfs_stat entry) = real_sz entry \<and>
      st_compressed_sz (frogfs_stat entry) = data_sz entry \<and>
      st_compression (frogfs_stat entry) = compression entry)"
  by (simp add: frogfs_stat_def FROGFS_IS_DIR_def FROGFS_IS_FILE_def Let_def)

theorem frogfs_stat_sizes_witness:
  "st_type (frogfs_stat (mk_dir ''etc'' 24 [60, 80])) = FROGFS_ENTRY_TYPE_DIR \<and>
   st_size (frogfs_stat (mk_dir ''etc'' 24 [60, 80])) = 0 \<and>
   st_compressed_sz (frogfs_stat (mk_dir ''etc'' 24 [60, 80])) = 0 \<and>
   st_type (frogfs_stat (mk_file ''index.html'' 24 0 13 100 0)) = FROGFS_ENTRY_TYPE_FILE \<and>
   st_size (frogfs_stat (mk_file ''index.html'' 24 0 13 100 0)) = 13 \<and>
   st_compressed_sz (frogfs_stat (mk_file ''index.html'' 24 0 13 100 0)) = 13 \<and>
   st_type (frogfs_stat (mk_file ''big.txt'' 24 1 312 200 1024)) = FROGFS_ENTRY_TYPE_FILE \<and>
   st_size (frogfs_stat (mk_file ''big.txt'' 24 1 312 200 1024)) = 1024 \<and>
   st_compressed_sz (frogfs_stat (mk_file ''big.txt'' 24 1 312 200 1024)) = 312 \<and>
   st_compression (frogfs_stat (mk_file ''big.txt'' 24 1 312 200 1024)) = 1"
proof -
  have d: "FROGFS_IS_DIR (mk_dir ''etc'' 24 [60, 80])"
    by (simp add: FROGFS_IS_DIR_def mk_dir_def)
  have f: "FROGFS_IS_FILE (mk_file ''index.html'' 24 0 13 100 0)"
    "compression (mk_file ''index.html'' 24 0 13 100 0) = 0"
    "data_sz (mk_file ''index.html'' 24 0 13 100 0) = 13"
    by (simp_all add: FROGFS_IS_FILE_def mk_file_def)
  have c: "FROGFS_IS_FILE (mk_file ''big.txt'' 24 1 312 200 1024)"
    "compression (mk_file ''big.txt'' 24 1 312 200 1024) = 1"
    "data_sz (mk_file ''big.txt'' 24 1 312 200 1024) = 312"
    "real_sz (mk_file ''big.txt'' 24 1 312 200 1024) = 1024"
    by (simp_all add: FROGFS_IS_FILE_def mk_file_def)
  show ?thesis
    using frogfs_stat_sizes [of "mk_dir ''etc'' 24 [60, 80]"]
      frogfs_stat_sizes [of "mk_file ''index.html'' 24 0 13 100 0"]
      frogfs_stat_sizes [of "mk_file ''big.txt'' 24 1 312 200 1024"]
    by (simp add: d f c)
qed

subsection \<open>Leading slashes\<close>

lemma dropWhile_slashes:
  "dropWhile (\<lambda>c. c = CHR ''/'') (replicate n CHR ''/'' @ p) = dropWhile (\<lambda>c. c = CHR ''/'') p"
  by (induction n) simp_all

text \<open>
  C6. For every bound image and every path \<open>p\<close>, resolving \<open>p\<close> behind any number of
  leading slashes gives what resolving \<open>p\<close> gives, the same entry or the same NULL:
  the slashes are stripped before the path is hashed and compared.
\<close>

theorem frogfs_get_entry_leading_slashes:
  "frogfs_get_entry ev fs (replicate n CHR ''/'' @ p) = frogfs_get_entry ev fs p"
  by (simp add: frogfs_get_entry_def dropWhile_slashes)

subsection \<open>Hashing\<close>

lemma word_of_nat_mod_pow:
  assumes "32 \<le> w"
  shows "(word_of_nat (n mod 2 ^ w) :: u32) = word_of_nat n"
proof -
  have "take_bit 32 (take_bit w n) = take_bit 32 n"
    using assms by (simp add: min_def)
  then show ?thesis
    by (simp add: word_of_nat_eq_iff take_bit_eq_mod)
qed

lemma djb2_step_word:
  assumes "32 \<le> ULONG_BITS ev"
  shows "(word_of_nat ((((h * 32) mod 2 ^ ULONG_BITS ev + h) mod 2 ^ ULONG_BITS ev) XOR of_char c) :: u32) =
         djb2_xor_step (word_of_nat h) c"
proof -
  have "(word_of_nat (((h * 32) mod 2 ^ ULONG_BITS ev + h) mod 2 ^ ULONG_BITS ev) :: u32) =
        word_of_nat (h * 32) + word_of_nat h"
    using assms by (simp add: word_of_nat_mod_pow)
  also have "\<dots> = push_bit 5 (word_of_nat h) + word_of_nat h"
    by (simp add: push_bit_eq_mult)
  finally show ?thesis
    by (simp add: djb2_xor_step_def of_nat_xor_eq of_nat_of_char)
qed

lemma djb2_loop_unsigned:
  assumes "32 \<le> ULONG_BITS ev"
    and "\<not> char_is_signed ev \<or> (\<forall>c \<in> set (c_str s). (of_char c :: nat) < 128)"
  shows "(word_of_nat (djb2_loop ev h s) :: u32) = foldl djb2_xor_step (word_of_nat h) (c_str s)"
  using assms(2)
proof (induction s arbitrary: h)
  case Nil
  show ?case by (simp add: c_str_def)
next
  case (Cons c s)
  show ?case
  proof (cases "c = NUL")
    case True
    then show ?thesis by (simp add: c_str_def)
  next
    case False
    with Cons.prems have u: "char_to_ulong ev c = of_char c"
      by (auto simp: char_to_ulong_def c_str_def)
    from False Cons.prems
    have p: "\<not> char_is_signed ev \<or> (\<forall>c \<in> set (c_str s). (of_char c :: nat) < 128)"
      by (auto simp: c_str_def)
    from False show ?thesis
      by (simp add: c_str_def u Cons.IH [OF p, unfolded c_str_def] djb2_step_word [OF assms(1)])
  qed
qed

text \<open>
  Where plain \<^verbatim>\<open>char\<close> is unsigned, and for strings of bytes below 0x80 on every
  build, \<open>djb2_hash\<close> is the djb2-XOR hash of the bytes before the NUL, whether
  \<^verbatim>\<open>unsigned long\<close> has 32 bits or more.
\<close>

theorem djb2_hash_unsigned:
  assumes "32 \<le> ULONG_BITS ev"
    and "\<not> char_is_signed ev \<or> (\<forall>c \<in> set (c_str s). (of_char c :: nat) < 128)"
  shows "djb2_hash ev s = djb2_xor (c_str s)"
  using djb2_loop_unsigned [OF assms, of 5381]
  by (simp add: djb2_hash_def djb2_xor_def)

theorem djb2_hash_unsigned_witness:
  "32 \<le> ULONG_BITS target_env \<and> \<not> char_is_signed target_env \<and>
   djb2_hash target_env [CHR 0xC3, CHR 0xA9] = 0x59628F \<and>
   32 \<le> ULONG_BITS host_env \<and> char_is_signed host_env \<and>
   djb2_hash host_env ''index.html'' = djb2_xor ''index.html''"
proof -
  have t: "32 \<le> ULONG_BITS target_env" "\<not> char_is_signed target_env"
    by (simp_all add: target_env_def)
  have h: "32 \<le> ULONG_BITS host_env" "char_is_signed host_env"
    by (simp_all add: host_env_def target_env_def)
  have a: "\<forall>c \<in> set (c_str ''index.html''). (of_char c :: nat) < 128"
    by (simp add: c_str_def NUL_def)
  have x: "djb2_xor (c_str [CHR 0xC3, CHR 0xA9]) = 0x59628F"
    by (simp add: djb2_xor_def djb2_xor_step_def c_str_def NUL_def)
  have y: "c_str ''index.html'' = ''index.html''"
    by (simp add: c_str_def NUL_def)
  show ?thesis
    using djb2_hash_unsigned [of target_env "[CHR 0xC3, CHR 0xA9]"]
      djb2_hash_unsigned [of host_env "''index.html''"] t h a x y
    by simp
qed

text \<open>
  C2. The claim: for every NUL-terminated path, the resolver's hash is the djb2-XOR
  hash with every byte taken as its unsigned value, bytes of 0x80 and above included.
  On a build whose plain \<^verbatim>\<open>char\<close> is signed, the path of the two bytes C3 A9 (the
  UTF-8 of e-acute) hashes to 0x59688F, while its djb2-XOR hash is 0x59628F: the
  bytes enter the XOR sign-extended.
\<close>

theorem djb2_hash_signed_char:
  "djb2_hash host_env [CHR 0xC3, CHR 0xA9] = 0x59688F \<and>
   djb2_xor [CHR 0xC3, CHR 0xA9] = 0x59628F"
  by (simp add: djb2_hash_def djb2_xor_def djb2_xor_step_def char_to_ulong_def host_env_def
      target_env_def NUL_def)

subsection \<open>Binding an image\<close>

text \<open>
  C3, as the code has it. \<open>frogfs_init\<close> makes two checks of the image, in this order:
  the magic, then the major version. A bound image has passed both; given the
  image's address and the memory for the descriptor, an image that passes both is
  bound, with \<open>root\<close> placed behind \<open>num_entries\<close> hash records. \<open>num_entries\<close> is
  not compared with anything: the binder is not told where the image ends.
\<close>

theorem frogfs_init_checks:
  "(frogfs_init ev conf = Inr fs \<longrightarrow>
      magic (img_head (head fs)) = FROGFS_MAGIC ev \<and>
      ver_major (img_head (head fs)) = FROGFS_VER_MAJOR ev) \<and>
   (calloc_ok ev \<and> addr conf = Some img \<longrightarrow>
      frogfs_init ev conf =
        (if magic (img_head img) \<noteq> FROGFS_MAGIC ev then Inl BadMagic
         else if ver_major (img_head img) \<noteq> FROGFS_VER_MAJOR ev then Inl VersionMismatch
         else Inr \<lparr>head = img,
                   root = SIZEOF_HEAD ev + SIZEOF_HASH * frogfs_head_t.num_entries (img_head img),
                   num_entries = sint (frogfs_head_t.num_entries (img_head img))\<rparr>))"
proof -
  have "magic (img_head (head fs)) = FROGFS_MAGIC ev \<and>
        ver_major (img_head (head fs)) = FROGFS_VER_MAJOR ev"
    if "frogfs_init ev conf = Inr fs"
    using that
    by (auto simp: frogfs_init_def split: if_splits option.splits mmap_result.splits)
  then show ?thesis
    by (simp add: frogfs_init_def)
qed

theorem frogfs_init_checks_witness:
  "frogfs_init target_env \<lparr>addr = Some bad_magic_image, part_label = None\<rparr> = Inl BadMagic \<and>
   frogfs_init target_env \<lparr>addr = Some v2_image, part_label = None\<rparr> = Inl VersionMismatch \<and>
   frogfs_init target_env \<lparr>addr = Some root_image, part_label = None\<rparr> = Inr root_fs \<and>
   magic (img_head (head root_fs)) = FROGFS_MAGIC target_env \<and>
   ver_major (img_head (head root_fs)) = FROGFS_VER_MAJOR target_env"
proof -
  have i: "frogfs_init target_env \<lparr>addr = Some root_image, part_label = None\<rparr> = Inr root_fs"
    using frogfs_init_checks
      [of target_env "\<lparr>addr = Some root_image, part_label = None\<rparr>" root_fs root_image]
    by (simp add: target_env_def root_image_def root_fs_def SIZEOF_HASH_def)
  show ?thesis
    using frogfs_init_checks
        [of target_env "\<lparr>addr = Some bad_magic_image, part_label = None\<rparr>" root_fs bad_magic_image]
      frogfs_init_checks
        [of target_env "\<lparr>addr = Some v2_image, part_label = None\<rparr>" root_fs v2_image]
      frogfs_init_checks
        [of target_env "\<lparr>addr = Some root_image, part_label = None\<rparr>" root_fs root_image] i
    by (simp add: target_env_def bad_magic_image_def v2_image_def root_image_def)
qed

text \<open>
  C3 as stated fails: the header of \<open>short_image\<close> counts a million entries, whose
  hash table would end eight million bytes past the 16 bytes of the image, and
  \<open>frogfs_init\<close> binds it.
\<close>

theorem frogfs_init_short_image:
  "unat (bin_sz (img_head short_image)) <
     unat (SIZEOF_HEAD target_env) +
     unat SIZEOF_HASH * unat (frogfs_head_t.num_entries (img_head short_image)) \<and>
   length (img_hash short_image) < unat (frogfs_head_t.num_entries (img_head short_image)) \<and>
   frogfs_init target_env \<lparr>addr = Some short_image, part_label = None\<rparr> =
     Inr \<lparr>head = short_image, root = 8000016, num_entries = 1000000\<rparr>"
  by (simp add: frogfs_init_def target_env_def short_image_def SIZEOF_HASH_def)

subsection \<open>Opening files\<close>

text \<open>
  C8. \<open>frogfs_open\<close> fails with \<open>NotAFile\<close> for every directory entry. For a file
  entry, once the handle is allocated, the decompressor is chosen by the table, in
  its order: no compression or the RAW flag selects the Raw driver with logical size
  \<open>data_sz\<close>; the DEFLATE tag with DEFLATE compiled in selects the DEFLATE driver with
  logical size \<open>real_sz\<close>; the Heatshrink tag with Heatshrink compiled in selects the
  Heatshrink driver with logical size \<open>real_sz\<close>; any other tag fails with
  \<open>UnsupportedCompression\<close>. The selected driver's \<open>open\<close> hook then runs on the
  handle.
\<close>

theorem frogfs_open_selection:
  assumes "fh = \<lparr>fh_fs = fs, fh_file = entry, data_start = data_offs entry,
                  data_ptr = data_offs entry, fh_data_sz = data_sz entry, fh_real_sz = 0,
                  flags = flgs, decomp_funcs = None\<rparr>"
  shows
  "(FROGFS_IS_DIR entry \<longrightarrow> frogfs_open ev fs entry flgs = Inl NotAFile) \<and>
   (FROGFS_IS_FILE entry \<and> calloc_ok ev \<longrightarrow>
      frogfs_open ev fs entry flgs =
        (if compression entry = 0 \<or> flgs AND FROGFS_OPEN_RAW ev \<noteq> 0
         then run_open_hook ev
                (fh\<lparr>fh_real_sz := data_sz entry, decomp_funcs := Some frogfs_decomp_raw\<rparr>) flgs
         else if compression entry = FROGFS_COMP_ALGO_DEFLATE \<and> CONFIG_FROGFS_USE_DEFLATE ev
         then run_open_hook ev
                (fh\<lparr>fh_real_sz := real_sz entry, decomp_funcs := Some frogfs_decomp_deflate\<rparr>) flgs
         else if compression entry = FROGFS_COMP_ALGO_HEATSHRINK \<and> CONFIG_FROGFS_USE_HEATSHRINK ev
         then run_open_hook ev
                (fh\<lparr>fh_real_sz := real_sz entry, decomp_funcs := Some frogfs_decomp_heatshrink\<rparr>) flgs
         else Inl UnsupportedCompression))"
  unfolding assms
  by (auto simp: frogfs_open_def select_decomp_def FROGFS_IS_DIR_def FROGFS_IS_FILE_def)

theorem frogfs_open_selection_witness:
  "frogfs_open target_env tie_fs (mk_dir ''etc'' 40 []) 0 = Inl NotAFile \<and>
   (\<exists>fh. frogfs_open target_env tie_fs (mk_file ''index.html'' 40 0 13 100 0) 0 = Inr fh \<and>
         decomp_funcs fh = Some frogfs_decomp_raw \<and> fh_real_sz fh = 13) \<and>
   (\<exists>fh. frogfs_open target_env tie_fs (mk_file ''big.txt'' 40 1 312 200 1024) 1 = Inr fh \<and>
         decomp_funcs fh = Some frogfs_decomp_raw \<and> fh_real_sz fh = 312) \<and>
   (\<exists>fh. frogfs_open target_env tie_fs (mk_file ''big.txt'' 40 1 312 200 1024) 0 = Inr fh \<and>
         decomp_funcs fh = Some frogfs_decomp_deflate \<and> fh_real_sz fh = 1024) \<and>
   frogfs_open target_env tie_fs (mk_file ''big.bin'' 40 2 312 200 1024) 0 =
     Inl UnsupportedCompression"
proof -
  have 1: "frogfs_open target_env tie_fs (mk_dir ''etc'' 40 []) 0 = Inl NotAFile"
    using frogfs_open_selection [OF refl, of "mk_dir ''etc'' 40 []" target_env tie_fs 0]
    by (simp add: FROGFS_IS_DIR_def mk_dir_def)
  have 2: "\<exists>fh. frogfs_open target_env tie_fs (mk_file ''index.html'' 40 0 13 100 0) 0 = Inr fh \<and>
         decomp_funcs fh = Some frogfs_decomp_raw \<and> fh_real_sz fh = 13"
    using frogfs_open_selection
      [OF refl, of "mk_file ''index.html'' 40 0 13 100 0" target_env tie_fs 0]
    by (simp add: FROGFS_IS_FILE_def mk_file_def target_env_def run_open_hook_def funcs_open_def)
  have 3: "\<exists>fh. frogfs_open target_env tie_fs (mk_file ''big.txt'' 40 1 312 200 1024) 1 = Inr fh \<and>
         decomp_funcs fh = Some frogfs_decomp_raw \<and> fh_real_sz fh = 312"
    using frogfs_open_selection
      [OF refl, of "mk_file ''big.txt'' 40 1 312 200 1024" target_env tie_fs 1]
    by (simp add: FROGFS_IS_FILE_def mk_file_def target_env_def run_open_hook_def funcs_open_def)
  have 4: "\<exists>fh. frogfs_open target_env tie_fs (mk_file ''big.txt'' 40 1 312 200 1024) 0 = Inr fh \<and>
         decomp_funcs fh = Some frogfs_decomp_deflate \<and> fh_real_sz fh = 1024"
    using frogfs_open_selection
      [OF refl, of "mk_file ''big.txt'' 40 1 312 200 1024" target_env tie_fs 0]
    by (simp add: FROGFS_IS_FILE_def mk_file_def target_env_def run_open_hook_def funcs_open_def
        FROGFS_COMP_ALGO_DEFLATE_def)
  have 5: "frogfs_open target_env tie_fs (mk_file ''big.bin'' 40 2 312 200 1024) 0 =
     Inl UnsupportedCompression"
    using frogfs_open_selection
      [OF refl, of "mk_file ''big.bin'' 40 2 312 200 1024" target_env tie_fs 0]
    by (simp add: FROGFS_IS_FILE_def mk_file_def target_env_def FROGFS_COMP_ALGO_DEFLATE_def
        FROGFS_COMP_ALGO_HEATSHRINK_def)
  from 1 2 3 4 5 show ?thesis by (intro conjI)
qed

lemma raw_read_flags:
  "raw_read (fh\<lparr>flags := a\<rparr>) n =
     (fst (raw_read fh n), fst (snd (raw_read fh n)), (snd (snd (raw_read fh n)))\<lparr>flags := a\<rparr>)"
  by (simp add: raw_read_def raw_pos_def Let_def)

lemma raw_seek_flags:
  "raw_seek (fh\<lparr>flags := a\<rparr>) offset mode =
     (fst (raw_seek fh offset mode), (snd (raw_seek fh offset mode))\<lparr>flags := a\<rparr>)"
  by (simp add: raw_seek_def raw_pos_def Let_def)

lemma raw_tell_flags: "raw_tell (fh\<lparr>flags := a\<rparr>) = raw_tell fh"
  by (simp add: raw_tell_def raw_pos_def)

lemma raw_read_funcs: "decomp_funcs (snd (snd (raw_read fh n))) = decomp_funcs fh"
  by (simp add: raw_read_def Let_def)

lemma raw_seek_funcs: "decomp_funcs (snd (raw_seek fh offset mode)) = decomp_funcs fh"
  by (simp add: raw_seek_def Let_def)

lemma fh_run_raw_flags:
  "decomp_funcs fh = Some frogfs_decomp_raw \<Longrightarrow>
   fh_run ev (fh\<lparr>flags := a\<rparr>) ops = fh_run ev (fh\<lparr>flags := b\<rparr>) ops"
proof (induction ops arbitrary: fh)
  case Nil
  show ?case by simp
next
  case (Cons op ops)
  show ?case
  proof (cases op)
    case (Read n)
    have "decomp_funcs (snd (snd (raw_read fh n))) = Some frogfs_decomp_raw"
      using Cons.prems by (simp add: raw_read_funcs)
    from Cons.IH [OF this] show ?thesis
      using Cons.prems
      by (simp add: Read frogfs_read_def funcs_read_def raw_read_flags)
  next
    case (Seek offset mode)
    have "decomp_funcs (snd (raw_seek fh offset mode)) = Some frogfs_decomp_raw"
      using Cons.prems by (simp add: raw_seek_funcs)
    from Cons.IH [OF this] show ?thesis
      using Cons.prems
      by (simp add: Seek frogfs_seek_def funcs_seek_def raw_seek_flags)
  next
    case Tell
    from Cons.IH [OF Cons.prems] show ?thesis
      using Cons.prems
      by (simp add: Tell frogfs_tell_def funcs_tell_def raw_tell_flags)
  qed
qed

text \<open>The Raw driver at work on the four payload bytes of the file \<open>ap\<close>.\<close>

lemma raw_driver_example:
  "fh_run target_env
     \<lparr>fh_fs = tie_fs, fh_file = mk_file ''ap'' 40 0 4 100 0, data_start = 100, data_ptr = 100,
      fh_data_sz = 4, fh_real_sz = 4, flags = 1, decomp_funcs = Some frogfs_decomp_raw\<rparr>
     [Read 3, Tell, Read 100, Read 1, Seek (- 2) 2, Read 5, Seek 0 7] =
   Inr [ReadResult 3 ''xxx'', TellResult 3, ReadResult 1 ''x'', ReadResult 0 [], SeekResult 2,
        ReadResult 2 ''xx'', SeekResult (- 1)]"
  by (simp add: frogfs_read_def frogfs_seek_def frogfs_tell_def funcs_read_def funcs_seek_def
      funcs_tell_def raw_read_def raw_seek_def raw_tell_def raw_pos_def Let_def tie_fs_def
      tie_image_def upt_rec)

text \<open>
  C9. For every uncompressed file entry, opening with any flags (the RAW flag among
  them) and opening with flags 0 give handles that differ in the stored flags only:
  the same data start, data size, logical size \<open>data_sz\<close> and the Raw driver; and any
  sequence of reads, seeks and tells returns the same results on both.
\<close>

theorem frogfs_open_uncompressed_flags:
  assumes "FROGFS_IS_FILE entry" and "compression entry = 0" and "calloc_ok ev"
  shows "\<exists>fh. frogfs_open ev fs entry flgs = Inr (fh\<lparr>flags := flgs\<rparr>) \<and>
               frogfs_open ev fs entry 0 = Inr (fh\<lparr>flags := 0\<rparr>) \<and>
               data_start fh = data_offs entry \<and> fh_data_sz fh = data_sz entry \<and>
               fh_real_sz fh = data_sz entry \<and> decomp_funcs fh = Some frogfs_decomp_raw \<and>
               (\<forall>ops. fh_run ev (fh\<lparr>flags := flgs\<rparr>) ops = fh_run ev (fh\<lparr>flags := 0\<rparr>) ops)"
proof -
  define fh where "fh = \<lparr>fh_fs = fs, fh_file = entry, data_start = data_offs entry,
     data_ptr = data_offs entry, fh_data_sz = data_sz entry, fh_real_sz = data_sz entry,
     flags = 0, decomp_funcs = Some frogfs_decomp_raw\<rparr>"
  have "frogfs_open ev fs entry f = Inr (fh\<lparr>flags := f\<rparr>)" for f
    using assms
    by (simp add: frogfs_open_def select_decomp_def FROGFS_IS_DIR_def FROGFS_IS_FILE_def
        run_open_hook_def funcs_open_def fh_def)
  moreover have "decomp_funcs fh = Some frogfs_decomp_raw"
    by (simp add: fh_def)
  moreover have "fh_run ev (fh\<lparr>flags := flgs\<rparr>) ops = fh_run ev (fh\<lparr>flags := 0\<rparr>) ops" for ops
    by (rule fh_run_raw_flags) (simp add: fh_def)
  ultimately show ?thesis
    by (intro exI [of _ fh]) (simp add: fh_def)
qed

theorem frogfs_open_uncompressed_flags_witness:
  "FROGFS_IS_FILE (mk_file ''index.html'' 40 0 13 100 0) \<and>
   compression (mk_file ''index.html'' 40 0 13 100 0) = 0 \<and> calloc_ok target_env \<and>
   (\<exists>fh. frogfs_open target_env tie_fs (mk_file ''index.html'' 40 0 13 100 0)
            (FROGFS_OPEN_RAW target_env) = Inr (fh\<lparr>flags := FROGFS_OPEN_RAW target_env\<rparr>) \<and>
         frogfs_open target_env tie_fs (mk_file ''index.html'' 40 0 13 100 0) 0 =
            Inr (fh\<lparr>flags := 0\<rparr>) \<and>
         data_start fh = 100 \<and> fh_data_sz fh = 13 \<and> fh_real_sz fh = 13 \<and>
         decomp_funcs fh = Some frogfs_decomp_raw \<and>
         fh_run target_env (fh\<lparr>flags := FROGFS_OPEN_RAW target_env\<rparr>) [Read 100, Tell, Seek 0 0] =
         fh_run target_env (fh\<lparr>flags := 0\<rparr>) [Read 100, Tell, Seek 0 0])"
proof -
  have a: "FROGFS_IS_FILE (mk_file ''index.html'' 40 0 13 100 0)"
    by (simp add: FROGFS_IS_FILE_def mk_file_def)
  have b: "compression (mk_file ''index.html'' 40 0 13 100 0) = 0"
    by (simp add: mk_file_def)
  have c: "calloc_ok target_env"
    by (simp add: target_env_def)
  have d: "data_offs (mk_file ''index.html'' 40 0 13 100 0) = 100"
    "data_sz (mk_file ''index.html'' 40 0 13 100 0) = 13"
    by (simp_all add: mk_file_def)
  from frogfs_open_uncompressed_flags [OF a b c, of tie_fs "FROGFS_OPEN_RAW target_env"]
  obtain fh where o:
    "frogfs_open target_env tie_fs (mk_file ''index.html'' 40 0 13 100 0)
       (FROGFS_OPEN_RAW target_env) = Inr (fh\<lparr>flags := FROGFS_OPEN_RAW target_env\<rparr>)"
    "frogfs_open target_env tie_fs (mk_file ''index.html'' 40 0 13 100 0) 0 = Inr (fh\<lparr>flags := 0\<rparr>)"
    "data_start fh = 100" "fh_data_sz fh = 13" "fh_real_sz fh = 13"
    "decomp_funcs fh = Some frogfs_decomp_raw"
    and r: "\<forall>ops. fh_run target_env (fh\<lparr>flags := FROGFS_OPEN_RAW target_env\<rparr>) ops =
           fh_run target_env (fh\<lparr>flags := 0\<rparr>) ops"
    unfolding d by blast
  note r' = r [THEN spec, of "[Read 100, Tell, Seek 0 0]"]
  from a b c o r' show ?thesis
    by blast
qed

subsection \<open>Directory handles\<close>

lemma readdir_same_dir:
  "frogfs_readdir dh = Inr r \<Longrightarrow> dir (snd r) = dir dh \<and> dh_fs (snd r) = dh_fs dh"
  by (auto simp: frogfs_readdir_def split: option.splits sum.splits if_splits)

lemma readdir_index_le:
  assumes "frogfs_readdir dh = Inr r" and "dir dh = Some d" and "entry_at (dh_fs dh) d = Inr de"
    and "unat (index dh) \<le> unat (child_count de)"
  shows "unat (index (snd r)) \<le> unat (child_count de)"
proof (cases "unat (index dh) < unat (child_count de)")
  case True
  have "unat (index dh + 1) \<le> unat (index dh) + 1"
    by (simp add: unat_word_ariths)
  with True assms show ?thesis
    by (auto simp: frogfs_readdir_def split: if_splits)
next
  case False
  with assms show ?thesis
    by (auto simp: frogfs_readdir_def split: if_splits)
qed

lemma readdir_at_end:
  assumes "dir dh = Some d" and "entry_at (dh_fs dh) d = Inr de"
    and "unat (index dh) = unat (child_count de)"
  shows "frogfs_readdir dh = Inr (None, dh)"
  using assms by (simp add: frogfs_readdir_def)

lemma dh_run_invariant:
  assumes "dir dh = Some d" and "entry_at (dh_fs dh) d = Inr de"
    and "unat (index dh) \<le> unat (child_count de)" and "dh_run dh ops = Inr dh'"
  shows "dir dh' = Some d \<and> dh_fs dh' = dh_fs dh \<and> unat (index dh') \<le> unat (child_count de)"
  using assms
proof (induction dh ops rule: dh_run.induct)
  case (1 dh)
  then show ?case by simp
next
  case (2 dh ops)
  from "2.prems"(4) obtain r
    where r: "frogfs_readdir dh = Inr r" and run: "dh_run (snd r) ops = Inr dh'"
    by (auto split: sum.splits)
  from readdir_same_dir [OF r] have same: "dir (snd r) = dir dh" "dh_fs (snd r) = dh_fs dh"
    by simp_all
  have le: "unat (index (snd r)) \<le> unat (child_count de)"
    using readdir_index_le [OF r "2.prems"(1,2,3)] .
  from "2.IH" [OF r] same "2.prems"(1,2) le run show ?case by simp
next
  case (3 dh ops)
  then show ?case by (simp add: frogfs_rewinddir_def)
next
  case (4 dh ops)
  then show ?case by simp
qed

lemma dh_run_reads_at_end:
  assumes "dir dh = Some d" and "entry_at (dh_fs dh) d = Inr de"
    and "unat (index dh) = unat (child_count de)"
  shows "dh_run dh (replicate n ReadDir) = Inr dh"
  using assms by (induction n) (simp_all add: readdir_at_end)

lemma opendir_fresh:
  "frogfs_opendir ev fs entry = Inr dh \<Longrightarrow> index dh = 0 \<and> dh_fs dh = fs"
  by (auto simp: frogfs_opendir_def split: option.splits sum.splits if_splits)

text \<open>
  C10. For every directory handle that \<open>frogfs_opendir\<close> gives, after any sequence of
  \<open>frogfs_readdir\<close>, \<open>frogfs_rewinddir\<close> and \<open>frogfs_telldir\<close> calls the index is at most
  the directory's \<open>child_count\<close>; and at \<open>child_count\<close>, \<open>frogfs_readdir\<close> returns NULL
  and leaves the handle as it is, so does every further \<open>frogfs_readdir\<close>, and
  \<open>frogfs_telldir\<close> returns \<open>child_count\<close>.
\<close>

theorem dir_index_bounded:
  assumes "frogfs_opendir ev fs entry = Inr dh0" and "dir dh0 = Some d"
    and "entry_at fs d = Inr de" and "dh_run dh0 ops = Inr dh"
  shows "unat (index dh) \<le> unat (child_count de) \<and>
         (unat (index dh) = unat (child_count de) \<longrightarrow>
            frogfs_readdir dh = Inr (None, dh) \<and>
            (\<forall>n. dh_run dh (replicate n ReadDir) = Inr dh) \<and>
            unat (frogfs_telldir dh) = unat (child_count de))"
proof -
  from opendir_fresh [OF assms(1)] have f: "index dh0 = 0" "dh_fs dh0 = fs" by simp_all
  have inv: "dir dh = Some d \<and> dh_fs dh = dh_fs dh0 \<and> unat (index dh) \<le> unat (child_count de)"
    by (rule dh_run_invariant [OF assms(2) _ _ assms(4)]) (simp_all add: f assms(3))
  with f assms(3) have e: "entry_at (dh_fs dh) d = Inr de" by simp
  from inv e show ?thesis
    by (auto simp: readdir_at_end dh_run_reads_at_end frogfs_telldir_def)
qed

lemma tie_root_entry: "entry_at tie_fs 40 = Inr (mk_dir [] 0 [60, 80])"
  by (simp add: entry_at_def tie_fs_def tie_image_def)

lemma tie_readdir:
  "frogfs_readdir tie_dh = Inr (Some 60, tie_dh\<lparr>index := 1\<rparr>)"
  "frogfs_readdir (tie_dh\<lparr>index := 1\<rparr>) = Inr (Some 80, tie_dh\<lparr>index := 2\<rparr>)"
  "frogfs_readdir (tie_dh\<lparr>index := 2\<rparr>) = Inr (None, tie_dh\<lparr>index := 2\<rparr>)"
  by (simp_all add: frogfs_readdir_def tie_dh_def tie_root_entry mk_dir_def)

lemma tie_rewinddir:
  "frogfs_rewinddir tie_dh = tie_dh" "frogfs_rewinddir (tie_dh\<lparr>index := k\<rparr>) = tie_dh"
  by (simp_all add: frogfs_rewinddir_def tie_dh_def)

lemma tie_opendir: "frogfs_opendir target_env tie_fs None = Inr tie_dh"
  by (simp add: frogfs_opendir_def target_env_def tie_dh_def tie_fs_def)

theorem dir_index_bounded_witness:
  "frogfs_opendir target_env tie_fs None = Inr tie_dh \<and> dir tie_dh = Some 40 \<and>
   entry_at tie_fs 40 = Inr (mk_dir [] 0 [60, 80]) \<and>
   dh_run tie_dh [ReadDir, TellDir, RewindDir, ReadDir, ReadDir, ReadDir] =
     Inr (tie_dh\<lparr>index := 2\<rparr>) \<and>
   unat (index (tie_dh\<lparr>index := 2\<rparr>)) = unat (child_count (mk_dir [] 0 [60, 80])) \<and>
   frogfs_readdir (tie_dh\<lparr>index := 2\<rparr>) = Inr (None, tie_dh\<lparr>index := 2\<rparr>) \<and>
   dh_run (tie_dh\<lparr>index := 2\<rparr>) (replicate 5 ReadDir) = Inr (tie_dh\<lparr>index := 2\<rparr>) \<and>
   unat (frogfs_telldir (tie_dh\<lparr>index := 2\<rparr>)) = 2"
proof -
  have d: "dir tie_dh = Some 40"
    by (simp add: tie_dh_def)
  have r: "dh_run tie_dh [ReadDir, TellDir, RewindDir, ReadDir, ReadDir, ReadDir] =
     Inr (tie_dh\<lparr>index := 2\<rparr>)"
    by (simp add: tie_readdir tie_rewinddir)
  have c: "unat (index (tie_dh\<lparr>index := 2\<rparr>)) = unat (child_count (mk_dir [] 0 [60, 80]))"
    by (simp add: mk_dir_def)
  from dir_index_bounded [OF tie_opendir d tie_root_entry r] c
  have "frogfs_readdir (tie_dh\<lparr>index := 2\<rparr>) = Inr (None, tie_dh\<lparr>index := 2\<rparr>)"
    and "dh_run (tie_dh\<lparr>index := 2\<rparr>) (replicate 5 ReadDir) = Inr (tie_dh\<lparr>index := 2\<rparr>)"
    and "unat (frogfs_telldir (tie_dh\<lparr>index := 2\<rparr>)) = unat (child_count (mk_dir [] 0 [60, 80]))"
    by blast+
  with tie_opendir d tie_root_entry r c show ?thesis
    by (simp add: mk_dir_def)
qed

lemma seekdir_loop_stuck:
  assumes "dir dh = Some d" and "entry_at (dh_fs dh) d = Inr de"
    and "\<not> unat (index dh) < unat (child_count de)" and "index dh < loc"
  shows "seekdir_loop dh loc = None"
proof (rule ccontr)
  let ?S = "\<lambda>dh loc. \<exists>d de. dir dh = Some d \<and> entry_at (dh_fs dh) d = Inr de \<and>
           \<not> unat (index dh) < unat (child_count de) \<and> index dh < loc"
  assume "seekdir_loop dh loc \<noteq> None"
  then obtain y where "seekdir_loop dh loc = Some y" by auto
  then have "\<not> ?S dh loc"
  proof (rule seekdir_loop.raw_induct [where P = "\<lambda>dh loc y. \<not> ?S dh loc", rotated])
    fix f :: "frogfs_dh_t \<Rightarrow> u16 \<Rightarrow> (error + frogfs_dh_t) option" and dh loc y
    assume IH: "\<And>dh loc y. f dh loc = Some y \<Longrightarrow> \<not> ?S dh loc"
      and body: "(if index dh < loc
                  then case frogfs_readdir dh of Inl err \<Rightarrow> Some (Inl err)
                       | Inr r \<Rightarrow> f (snd r) loc
                  else Some (Inr dh)) = Some y"
    show "\<not> ?S dh loc"
    proof
      assume "?S dh loc"
      then obtain d de where s: "dir dh = Some d" "entry_at (dh_fs dh) d = Inr de"
           "\<not> unat (index dh) < unat (child_count de)" "index dh < loc" by blast
      then have "frogfs_readdir dh = Inr (None, dh)"
        by (simp add: frogfs_readdir_def)
      with body s have "f dh loc = Some y" by simp
      from IH [OF this] s show False by blast
    qed
  qed
  with assms show False by blast
qed

lemma seekdir_loop_in_range:
  assumes "dir dh = Some d" and "entry_at (dh_fs dh) d = Inr de"
    and "unat loc \<le> unat (child_count de)" and "unat loc \<le> length (children de)"
    and "index dh \<le> loc"
  shows "seekdir_loop dh loc = Some (Inr (dh\<lparr>index := loc\<rparr>))"
  using assms(1,2,5)
proof (induction "unat loc - unat (index dh)" arbitrary: dh)
  case 0
  then have "index dh = loc"
    by (simp add: word_le_nat_alt word_unat_eq_iff)
  then show ?case
    by (subst seekdir_loop.simps) simp
next
  case (Suc n)
  then have lt: "unat (index dh) < unat loc" by simp
  then have lt': "index dh < loc" by (simp add: word_less_nat_alt)
  have "unat loc < 65536"
    using unsigned_less [of loc, where ?'a = nat] by simp
  with lt have nx: "unat (index dh + 1) = unat (index dh) + 1"
    by (simp add: unat_word_ariths)
  let ?dh = "dh\<lparr>index := index dh + 1\<rparr>"
  have rd: "frogfs_readdir dh = Inr (Some (children de ! unat (index dh)), ?dh)"
    using Suc.prems lt assms(3,4) by (simp add: frogfs_readdir_def)
  have "seekdir_loop ?dh loc = Some (Inr (?dh\<lparr>index := loc\<rparr>))"
  proof (rule Suc.hyps(1))
    show "n = unat loc - unat (index ?dh)" using Suc.hyps(2) nx by simp
    show "dir ?dh = Some d" using Suc.prems by simp
    show "entry_at (dh_fs ?dh) d = Inr de" using Suc.prems by simp
    show "index ?dh \<le> loc" using lt nx by (simp add: word_le_nat_alt)
  qed
  with lt' show ?case
    by (subst seekdir_loop.simps) (simp add: rd)
qed

lemma seekdir_loop_past_end:
  assumes "dir dh = Some d" and "entry_at (dh_fs dh) d = Inr de"
    and "unat (child_count de) < unat loc" and "unat (child_count de) \<le> length (children de)"
    and "unat (index dh) \<le> unat (child_count de)"
  shows "seekdir_loop dh loc = None"
  using assms(1,2,5)
proof (induction "unat (child_count de) - unat (index dh)" arbitrary: dh)
  case 0
  then have "\<not> unat (index dh) < unat (child_count de)" by simp
  moreover have "index dh < loc"
    using 0 assms(3) by (simp add: word_less_nat_alt)
  ultimately show ?case
    using 0 by (intro seekdir_loop_stuck [where d = d and de = de]) simp_all
next
  case (Suc n)
  then have lt: "unat (index dh) < unat (child_count de)" by simp
  with assms(3) have lt': "index dh < loc" by (simp add: word_less_nat_alt)
  have "unat loc < 65536"
    using unsigned_less [of loc, where ?'a = nat] by simp
  with lt assms(3) have nx: "unat (index dh + 1) = unat (index dh) + 1"
    by (simp add: unat_word_ariths)
  let ?dh = "dh\<lparr>index := index dh + 1\<rparr>"
  have rd: "frogfs_readdir dh = Inr (Some (children de ! unat (index dh)), ?dh)"
    using Suc.prems lt assms(4) by (simp add: frogfs_readdir_def)
  have "seekdir_loop ?dh loc = None"
  proof (rule Suc.hyps(1))
    show "n = unat (child_count de) - unat (index ?dh)" using Suc.hyps(2) nx by simp
    show "dir ?dh = Some d" using Suc.prems by simp
    show "entry_at (dh_fs ?dh) d = Inr de" using Suc.prems by simp
    show "unat (index ?dh) \<le> unat (child_count de)" using lt nx by simp
  qed
  with lt' show ?case
    by (subst seekdir_loop.simps) (simp add: rd)
qed

text \<open>
  What \<open>frogfs_seekdir\<close> does on a directory whose children the image holds: up to
  \<open>child_count\<close> it returns with the index at the position asked for; past
  \<open>child_count\<close> it never returns.
\<close>

theorem frogfs_seekdir_in_range:
  assumes "dir dh = Some d" and "entry_at (dh_fs dh) d = Inr de"
    and "unat loc \<le> unat (child_count de)" and "unat loc \<le> length (children de)"
  shows "frogfs_seekdir dh loc = Some (Inr (dh\<lparr>index := loc\<rparr>))"
proof -
  have a: "dir (frogfs_rewinddir dh) = Some d"
    using assms(1) by (simp add: frogfs_rewinddir_def)
  have b: "entry_at (dh_fs (frogfs_rewinddir dh)) d = Inr de"
    using assms(2) by (simp add: frogfs_rewinddir_def)
  have c: "index (frogfs_rewinddir dh) \<le> loc"
    by (simp add: frogfs_rewinddir_def)
  show ?thesis
    unfolding frogfs_seekdir_def
    by (simp add: seekdir_loop_in_range [OF a b assms(3,4) c]) (simp add: frogfs_rewinddir_def)
qed

theorem frogfs_seekdir_in_range_witness:
  "dir tie_dh = Some 40 \<and> entry_at (dh_fs tie_dh) 40 = Inr (mk_dir [] 0 [60, 80]) \<and>
   unat (2 :: u16) \<le> unat (child_count (mk_dir [] 0 [60, 80])) \<and>
   frogfs_seekdir (tie_dh\<lparr>index := 1\<rparr>) 2 = Some (Inr (tie_dh\<lparr>index := 2\<rparr>))"
proof -
  have d: "dir (tie_dh\<lparr>index := 1\<rparr>) = Some 40"
    by (simp add: tie_dh_def)
  have e: "entry_at (dh_fs (tie_dh\<lparr>index := 1\<rparr>)) 40 = Inr (mk_dir [] 0 [60, 80])"
    by (simp add: tie_dh_def tie_root_entry)
  have c: "unat (2 :: u16) \<le> unat (child_count (mk_dir [] 0 [60, 80]))"
    "unat (2 :: u16) \<le> length (children (mk_dir [] 0 [60, 80]))"
    by (simp_all add: mk_dir_def)
  from frogfs_seekdir_in_range [OF d e c] d e c show ?thesis
    by (simp add: tie_dh_def)
qed

theorem frogfs_seekdir_never_returns:
  assumes "dir dh = Some d" and "entry_at (dh_fs dh) d = Inr de"
    and "unat (child_count de) < unat loc" and "unat (child_count de) \<le> length (children de)"
  shows "frogfs_seekdir dh loc = None"
proof -
  have a: "dir (frogfs_rewinddir dh) = Some d"
    using assms(1) by (simp add: frogfs_rewinddir_def)
  have b: "entry_at (dh_fs (frogfs_rewinddir dh)) d = Inr de"
    using assms(2) by (simp add: frogfs_rewinddir_def)
  have c: "unat (index (frogfs_rewinddir dh)) \<le> unat (child_count de)"
    by (simp add: frogfs_rewinddir_def)
  show ?thesis
    unfolding frogfs_seekdir_def
    by (rule seekdir_loop_past_end [OF a b assms(3,4) c])
qed

theorem frogfs_seekdir_never_returns_witness:
  "dir tie_dh = Some 40 \<and> entry_at (dh_fs tie_dh) 40 = Inr (mk_dir [] 0 [60, 80]) \<and>
   unat (child_count (mk_dir [] 0 [60, 80])) < unat (1000 :: u16) \<and>
   frogfs_seekdir tie_dh 1000 = None"
proof -
  have d: "dir tie_dh = Some 40"
    by (simp add: tie_dh_def)
  have e: "entry_at (dh_fs tie_dh) 40 = Inr (mk_dir [] 0 [60, 80])"
    by (simp add: tie_dh_def tie_root_entry)
  have c: "unat (child_count (mk_dir [] 0 [60, 80])) < unat (1000 :: u16)"
    "unat (child_count (mk_dir [] 0 [60, 80])) \<le> length (children (mk_dir [] 0 [60, 80]))"
    by (simp_all add: mk_dir_def)
  from frogfs_seekdir_never_returns [OF d e c] d e c show ?thesis
    by simp
qed

text \<open>
  C4. The claim: for every handle and every position \<open>n\<close>, \<open>frogfs_seekdir\<close> terminates
  with the index at \<open>min n child_count\<close>. On the root of \<open>tie_image\<close>, which has two
  children, a seek to position 3 never returns: at index 2 \<open>frogfs_readdir\<close> returns
  NULL without moving the index, and the loop waits for the index to reach 3.
\<close>

theorem frogfs_seekdir_past_end:
  "frogfs_opendir target_env tie_fs None = Inr tie_dh \<and>
   child_count (mk_dir [] 0 [60, 80]) = 2 \<and>
   frogfs_readdir (tie_dh\<lparr>index := 2\<rparr>) = Inr (None, tie_dh\<lparr>index := 2\<rparr>) \<and>
   frogfs_seekdir tie_dh 3 = None"
proof -
  have s: "seekdir_loop (tie_dh\<lparr>index := 2\<rparr>) 3 = None"
    by (rule seekdir_loop_stuck [where d = 40 and de = "mk_dir [] 0 [60, 80]"])
       (simp_all add: tie_dh_def tie_root_entry mk_dir_def)
  have 2: "seekdir_loop (tie_dh\<lparr>index := 1\<rparr>) 3 = None"
    by (subst seekdir_loop.simps) (simp add: tie_readdir s)
  have 1: "seekdir_loop tie_dh 3 = None"
    by (subst seekdir_loop.simps) (simp add: tie_readdir 2, simp add: tie_dh_def)
  show ?thesis
    by (simp add: tie_opendir tie_readdir frogfs_seekdir_def tie_rewinddir 1)
       (simp add: mk_dir_def)
qed

subsection \<open>Path resolution\<close>

lemma hash_at_nth:
  "0 \<le> k \<Longrightarrow> k < int (length (img_hash (head fs))) \<Longrightarrow>
   hash_at fs k = Inr (img_hash (head fs) ! nat k)"
  by (simp add: hash_at_def)

lemma sorted_hash_mono:
  assumes "sorted (map hash tab)" and "j \<le> k" and "k < length tab"
  shows "hash (tab ! j) \<le> hash (tab ! k)"
  using sorted_nth_mono [OF assms(1), of j k] assms(2,3) by simp

text \<open>
  The binary search finds the record of a hash that the sorted table holds once.
\<close>

lemma bsearch_loop_finds:
  assumes srt: "sorted (map hash (img_hash (head fs)))"
    and i: "i < length (img_hash (head fs))"
    and hi: "hash (img_hash (head fs) ! i) = h"
    and uniq: "\<forall>j < length (img_hash (head fs)). hash (img_hash (head fs) ! j) = h \<longrightarrow> j = i"
    and "0 \<le> first" and "first \<le> int i" and "int i \<le> last'"
    and "last' < int (length (img_hash (head fs)))"
  shows "\<exists>f l. bsearch_loop fs h first last' middle = Inr (f, l, int i) \<and> f \<le> l \<and> l \<le> last'"
  using assms(5-8)
proof (induction "nat (last' - first + 1)" arbitrary: first last' middle rule: less_induct)
  case less
  let ?tab = "img_hash (head fs)"
  let ?m = "first + (last' - first) div 2"
  from less.prems have fl: "first \<le> last'" by simp
  have m: "first \<le> ?m" "?m \<le> last'" using fl by simp_all
  with less.prems have mr: "0 \<le> ?m" "?m < int (length ?tab)" by simp_all
  then have rd: "hash_at fs ?m = Inr (?tab ! nat ?m)" by (rule hash_at_nth)
  have nm: "nat ?m < length ?tab" using mr by simp
  show ?case
  proof (cases "hash (?tab ! nat ?m) = h")
    case True
    with uniq nm have "nat ?m = i" by blast
    with mr have mi: "?m = int i" by simp
    from True fl have "bsearch_loop fs h first last' middle = Inr (first, last', ?m)"
      by (subst bsearch_loop.simps) (simp add: rd Let_def)
    with fl show ?thesis
      unfolding mi by simp
  next
    case False
    show ?thesis
    proof (cases "hash (?tab ! nat ?m) < h")
      case True
      have "nat ?m < i"
      proof (rule ccontr)
        assume "\<not> nat ?m < i"
        then have "i \<le> nat ?m" by simp
        from sorted_hash_mono [OF srt this nm] hi True show False by simp
      qed
      then have lo: "?m + 1 \<le> int i" using mr by simp
      have "\<exists>f l. bsearch_loop fs h (?m + 1) last' ?m = Inr (f, l, int i) \<and> f \<le> l \<and> l \<le> last'"
        by (rule less.hyps) (use lo less.prems m mr in simp_all)
      with False True fl show ?thesis
        by (subst bsearch_loop.simps) (simp add: rd Let_def)
    next
      case ge: False
      have "i < nat ?m"
      proof (rule ccontr)
        assume "\<not> i < nat ?m"
        then have "nat ?m \<le> i" by simp
        from sorted_hash_mono [OF srt this i] hi ge False show False by simp
      qed
      then have hi': "int i \<le> ?m - 1" by simp
      have "\<exists>f l. bsearch_loop fs h first (?m - 1) ?m = Inr (f, l, int i) \<and> f \<le> l \<and> l \<le> ?m - 1"
        by (rule less.hyps) (use hi' less.prems m mr in simp_all)
      then obtain f l
        where "bsearch_loop fs h first (?m - 1) ?m = Inr (f, l, int i)" "f \<le> l" "l \<le> last'"
        using m by force
      with False ge fl show ?thesis
        by (subst bsearch_loop.simps) (simp add: rd Let_def)
    qed
  qed
qed

lemma rewind_loop_unique:
  assumes i: "i < length (img_hash (head fs))"
    and uniq: "\<forall>j < length (img_hash (head fs)). hash (img_hash (head fs) ! j) = h \<longrightarrow> j = i"
  shows "rewind_loop fs h (int i) (int i) = Inr (int i, int i)"
proof (cases "i = 0")
  case True
  then show ?thesis by (subst rewind_loop.simps) simp
next
  case False
  then have r: "0 \<le> int i - 1" "int i - 1 < int (length (img_hash (head fs)))"
    using i by simp_all
  have "nat (int i - 1) < length (img_hash (head fs))" "nat (int i - 1) \<noteq> i"
    using i False by simp_all
  with uniq have "hash (img_hash (head fs) ! nat (int i - 1)) \<noteq> h" by blast
  with False show ?thesis
    by (subst rewind_loop.simps) (simp add: hash_at_nth [OF r] Let_def)
qed

lemma djb2_hash_empty: "djb2_hash ev [] = 5381"
  by (simp add: djb2_hash_def)

lemma frogfs_get_path_root:
  "calloc_ok ev \<Longrightarrow> entry_at fs p = Inr e \<Longrightarrow> parent e = 0 \<Longrightarrow>
   frogfs_get_path ev fs p = Inr (Some [])"
  by (simp add: frogfs_get_path_def)

lemma dropWhile_all_slashes:
  "set p \<subseteq> {CHR ''/''} \<Longrightarrow> dropWhile (\<lambda>c. c = CHR ''/'') p = []"
  by (induction p) auto

text \<open>
  C5, as the code has it. \<open>frogfs_get_entry\<close> has no case of its own for the empty
  path: it looks the hash 5381 of the empty string up like any other. For a bound
  image whose hash table holds \<open>num_entries\<close> records sorted by hash, exactly one of
  them with the hash 5381, and that one pointing at the root directory entry (whose
  \<open>parent\<close> is 0), every path of nothing but slashes, the empty path among them,
  resolves to the root, provided the path buffer can be allocated.
\<close>

theorem frogfs_get_entry_root:
  assumes "calloc_ok ev" and "set p \<subseteq> {CHR ''/''}"
    and "int (length (img_hash (head fs))) = num_entries fs"
    and "sorted (map hash (img_hash (head fs)))"
    and "i < length (img_hash (head fs))"
    and "hash (img_hash (head fs) ! i) = 5381"
    and "\<forall>j < length (img_hash (head fs)). hash (img_hash (head fs) ! j) = 5381 \<longrightarrow> j = i"
    and "offs (img_hash (head fs) ! i) = root fs"
    and "entry_at fs (root fs) = Inr e" and "parent e = 0"
  shows "frogfs_get_entry ev fs p = Inr (Some (root fs))"
proof -
  let ?tab = "img_hash (head fs)"
  have "\<exists>f l. bsearch_loop fs 5381 0 (num_entries fs - 1) 0 = Inr (f, l, int i) \<and>
          f \<le> l \<and> l \<le> num_entries fs - 1"
    by (rule bsearch_loop_finds [OF assms(4,5,6,7)]) (use assms(3,5) in simp_all)
  then obtain f l
    where bs: "bsearch_loop fs 5381 0 (num_entries fs - 1) 0 = Inr (f, l, int i)" and fl: "f \<le> l"
    by blast
  have rw: "rewind_loop fs 5381 (int i) (int i) = Inr (int i, int i)"
    by (rule rewind_loop_unique [OF assms(5,7)])
  have rd: "hash_at fs (int i) = Inr (?tab ! i)"
    using hash_at_nth [of "int i" fs] assms(5) by simp
  have gp: "frogfs_get_path ev fs (root fs) = Inr (Some [])"
    by (rule frogfs_get_path_root [OF assms(1,9,10)])
  have wl: "walk_loop ev fs [] 5381 l (int i) (int i) = Inr (Some (root fs))"
    by (subst walk_loop.simps) (simp add: rd gp assms(8))
  show ?thesis
    using fl
    by (simp add: frogfs_get_entry_def dropWhile_all_slashes [OF assms(2)] djb2_hash_empty bs rw wl)
qed

lemma tie_hash_at:
  "hash_at tie_fs 0 = Inr \<lparr>hash = 5381, offs = 40\<rparr>"
  "hash_at tie_fs 1 = Inr \<lparr>hash = 5860916, offs = 60\<rparr>"
  "hash_at tie_fs 2 = Inr \<lparr>hash = 5860916, offs = 80\<rparr>"
  by (simp_all add: hash_at_def tie_fs_def tie_image_def)

lemma tie_entry_at:
  "entry_at tie_fs 60 = Inr (mk_file ''ap'' 40 0 4 100 0)"
  "entry_at tie_fs 80 = Inr (mk_file ''g6'' 40 0 4 104 0)"
  by (simp_all add: entry_at_def tie_fs_def tie_image_def)

lemma tie_fields: "root tie_fs = 40" "num_entries tie_fs = 3"
  by (simp_all add: tie_fs_def)

lemma tie_init:
  "frogfs_init target_env \<lparr>addr = Some tie_image, part_label = None\<rparr> = Inr tie_fs"
  by (simp add: frogfs_init_def target_env_def tie_image_def tie_fs_def SIZEOF_HASH_def)

theorem frogfs_get_entry_root_witness:
  "calloc_ok target_env \<and> sorted (map hash (img_hash (head tie_fs))) \<and>
   hash (img_hash (head tie_fs) ! 0) = 5381 \<and> offs (img_hash (head tie_fs) ! 0) = root tie_fs \<and>
   entry_at tie_fs (root tie_fs) = Inr (mk_dir [] 0 [60, 80]) \<and>
   parent (mk_dir [] 0 [60, 80]) = 0 \<and>
   frogfs_get_entry target_env tie_fs [] = Inr (Some 40) \<and>
   frogfs_get_entry target_env tie_fs ''///'' = Inr (Some 40)"
proof -
  have c: "calloc_ok target_env"
    by (simp add: target_env_def)
  have n: "int (length (img_hash (head tie_fs))) = num_entries tie_fs"
    by (simp add: tie_fs_def tie_image_def)
  have s: "sorted (map hash (img_hash (head tie_fs)))"
    by (simp add: tie_fs_def tie_image_def)
  have i: "0 < length (img_hash (head tie_fs))"
    by (simp add: tie_fs_def tie_image_def)
  have h: "hash (img_hash (head tie_fs) ! 0) = 5381"
    by (simp add: tie_fs_def tie_image_def)
  have u: "\<forall>j < length (img_hash (head tie_fs)). hash (img_hash (head tie_fs) ! j) = 5381 \<longrightarrow> j = 0"
    by (simp add: tie_fs_def tie_image_def less_Suc_eq numeral_3_eq_3)
  have f: "offs (img_hash (head tie_fs) ! 0) = root tie_fs"
    by (simp add: tie_fs_def tie_image_def)
  have e: "entry_at tie_fs (root tie_fs) = Inr (mk_dir [] 0 [60, 80])"
    by (simp add: tie_fields tie_root_entry)
  have p: "parent (mk_dir [] 0 [60, 80]) = 0"
    by (simp add: mk_dir_def)
  have a: "set [] \<subseteq> {CHR ''/''}" "set ''///'' \<subseteq> {CHR ''/''}"
    by simp_all
  from frogfs_get_entry_root [OF c a(1) n s i h u f e p]
    frogfs_get_entry_root [OF c a(2) n s i h u f e p] c s h f e p
  show ?thesis
    by (simp add: tie_fields)
qed

text \<open>
  C5 as stated fails: \<open>frogfs_init\<close> binds \<open>unindexed_image\<close>, whose root directory
  lies at offset 24 behind a hash table that has no record for it, and the empty
  path and the path of one slash resolve to nothing.
\<close>

theorem unindexed_root_not_found:
  "frogfs_init target_env \<lparr>addr = Some unindexed_image, part_label = None\<rparr> = Inr unindexed_fs \<and>
   entry_at unindexed_fs (root unindexed_fs) = Inr (mk_dir [] 0 [40]) \<and>
   frogfs_get_entry target_env unindexed_fs [] = Inr None \<and>
   frogfs_get_entry target_env unindexed_fs ''/'' = Inr None"
proof -
  have h: "hash_at unindexed_fs 0 = Inr \<lparr>hash = 5860916, offs = 40\<rparr>"
    by (simp add: hash_at_def unindexed_fs_def unindexed_image_def)
  have b: "bsearch_loop unindexed_fs 5381 0 0 0 = Inr (0, - 1, 0)"
    by (simp add: bsearch_loop.simps h)
  have n: "num_entries unindexed_fs = 1"
    by (simp add: unindexed_fs_def)
  have i: "frogfs_init target_env \<lparr>addr = Some unindexed_image, part_label = None\<rparr> =
             Inr unindexed_fs"
    by (simp add: frogfs_init_def target_env_def unindexed_image_def unindexed_fs_def
        SIZEOF_HASH_def)
  have e: "entry_at unindexed_fs (root unindexed_fs) = Inr (mk_dir [] 0 [40])"
    by (simp add: entry_at_def unindexed_fs_def unindexed_image_def)
  show ?thesis
    by (simp add: i e frogfs_get_entry_def djb2_hash_def n b)
qed

text \<open>
  Why the hash 5381 must be the root's alone: \<open>shadow_image\<close> has a sorted table
  and distinct paths, and indexes its root, but the file \<open>uukgacke\<close> shares the hash
  5381 and its record comes first. The empty path resolves to nothing there, since
  the walk compares the first candidate only.
\<close>

lemma shadow_root_not_found:
  "frogfs_init target_env \<lparr>addr = Some shadow_image, part_label = None\<rparr> = Inr shadow_fs \<and>
   djb2_hash target_env ''uukgacke'' = 5381 \<and>
   frogfs_get_path target_env shadow_fs 48 = Inr (Some ''uukgacke'') \<and>
   frogfs_get_path target_env shadow_fs 32 = Inr (Some []) \<and>
   frogfs_get_entry target_env shadow_fs [] = Inr None"
proof -
  have i: "frogfs_init target_env \<lparr>addr = Some shadow_image, part_label = None\<rparr> = Inr shadow_fs"
    by (simp add: frogfs_init_def target_env_def shadow_image_def shadow_fs_def SIZEOF_HASH_def)
  have h: "djb2_hash target_env ''uukgacke'' = 5381"
    by (simp add: djb2_hash_def char_to_ulong_def target_env_def NUL_def)
  have t: "hash_at shadow_fs 0 = Inr \<lparr>hash = 5381, offs = 48\<rparr>"
    "hash_at shadow_fs 1 = Inr \<lparr>hash = 5381, offs = 32\<rparr>"
    by (simp_all add: hash_at_def shadow_fs_def shadow_image_def)
  have e: "entry_at shadow_fs 32 = Inr (mk_dir [] 0 [48])"
    "entry_at shadow_fs 48 = Inr (mk_file ''uukgacke'' 32 0 4 76 0)"
    by (simp_all add: entry_at_def shadow_fs_def shadow_image_def)
  have f: "root shadow_fs = 32" "num_entries shadow_fs = 2"
    by (simp_all add: shadow_fs_def)
  have p: "frogfs_get_path target_env shadow_fs 48 = Inr (Some ''uukgacke'')"
    by (simp add: frogfs_get_path_def get_path_loop.simps e f name_bytes_def
      frogfs_get_name_def FROGFS_IS_DIR_def FROGFS_IS_FILE_def FROGFS_IS_COMP_def mk_file_def
      target_env_def)
  have r: "frogfs_get_path target_env shadow_fs 32 = Inr (Some [])"
    by (simp add: frogfs_get_path_def e mk_dir_def target_env_def)
  have b: "bsearch_loop shadow_fs 5381 0 1 0 = Inr (0, 1, 0)"
    by (simp add: bsearch_loop.simps t)
  have w: "rewind_loop shadow_fs 5381 0 0 = Inr (0, 0)"
    by (simp add: rewind_loop.simps)
  have l: "walk_loop target_env shadow_fs [] 5381 1 0 0 = Inr None"
    by (simp add: walk_loop.simps t p c_str_def NUL_def)
  have g: "frogfs_get_entry target_env shadow_fs [] = Inr None"
    by (simp add: frogfs_get_entry_def djb2_hash_empty f b w l)
  from i h p r g show ?thesis by (intro conjI)
qed

lemma tie_paths:
  "frogfs_get_path target_env tie_fs 60 = Inr (Some ''ap'')"
  "frogfs_get_path target_env tie_fs 80 = Inr (Some ''g6'')"
  by (simp_all add: frogfs_get_path_def get_path_loop.simps tie_entry_at tie_fields name_bytes_def
      frogfs_get_name_def FROGFS_IS_DIR_def FROGFS_IS_FILE_def FROGFS_IS_COMP_def mk_file_def
      target_env_def)

lemma tie_hashes:
  "djb2_hash target_env ''ap'' = 5860916" "djb2_hash target_env ''g6'' = 5860916"
  by (simp_all add: djb2_hash_def char_to_ulong_def target_env_def NUL_def)

lemma tie_bsearch: "bsearch_loop tie_fs 5860916 0 2 0 = Inr (0, 2, 1)"
  by (simp add: bsearch_loop.simps tie_hash_at)

lemma tie_rewind: "rewind_loop tie_fs 5860916 1 1 = Inr (1, 1)"
  by (simp add: rewind_loop.simps tie_hash_at)

lemma tie_walk:
  "walk_loop target_env tie_fs ''ap'' 5860916 2 1 1 = Inr (Some 60)"
  "walk_loop target_env tie_fs ''g6'' 5860916 2 1 1 = Inr None"
  by (simp_all add: walk_loop.simps tie_hash_at tie_paths c_str_def NUL_def)

text \<open>
  The candidate walk never leaves the hash record \<open>e\<close> it starts at: whatever entry
  it returns is the one that record points at.
\<close>

lemma walk_loop_one_candidate:
  "walk_loop ev fs path h last' middle e = Inr (Some p) \<Longrightarrow>
   hash_at fs e = Inr he \<Longrightarrow> p = offs he"
proof (induction ev fs path h last' middle e rule: walk_loop.induct)
  case (1 ev fs path h last' middle e)
  from "1.prems" show ?case
    apply (subst (asm) walk_loop.simps)
    apply (auto split: sum.splits option.splits if_splits)
    apply (rule "1.IH")
    apply auto
    done
qed

text \<open>
  C1. The claim: on an image with a sorted hash table and distinct paths, every
  stored entry whose hash another entry shares is what its own full path resolves
  to. \<open>tie_image\<close> is such an image, bound by \<open>frogfs_init\<close>: the files \<open>ap\<close> (offset
  60) and \<open>g6\<close> (offset 80) share the hash 5860916. The path \<open>ap\<close> resolves to its
  entry, and the path \<open>g6\<close>, which is the full path of the entry at offset 80,
  resolves to nothing: the walk compares the first candidate's path only.
\<close>

theorem tie_group_second_not_found:
  "frogfs_init target_env \<lparr>addr = Some tie_image, part_label = None\<rparr> = Inr tie_fs \<and>
   map hash (img_hash tie_image) = [5381, 5860916, 5860916] \<and>
   map offs (img_hash tie_image) = [40, 60, 80] \<and>
   frogfs_get_path target_env tie_fs 40 = Inr (Some []) \<and>
   frogfs_get_path target_env tie_fs 60 = Inr (Some ''ap'') \<and>
   frogfs_get_path target_env tie_fs 80 = Inr (Some ''g6'') \<and>
   djb2_hash target_env ''ap'' = 5860916 \<and> djb2_hash target_env ''g6'' = 5860916 \<and>
   frogfs_get_entry target_env tie_fs ''ap'' = Inr (Some 60) \<and>
   frogfs_get_entry target_env tie_fs ''g6'' = Inr None"
proof -
  have r: "frogfs_get_path target_env tie_fs 40 = Inr (Some [])"
    by (rule frogfs_get_path_root [OF _ tie_root_entry]) (simp_all add: target_env_def mk_dir_def)
  have t: "map hash (img_hash tie_image) = [5381, 5860916, 5860916]"
    "map offs (img_hash tie_image) = [40, 60, 80]"
    by (simp_all add: tie_image_def)
  have a: "frogfs_get_entry target_env tie_fs ''ap'' = Inr (Some 60)"
    by (simp add: frogfs_get_entry_def tie_hashes tie_fields tie_bsearch tie_rewind tie_walk)
  have g: "frogfs_get_entry target_env tie_fs ''g6'' = Inr None"
    by (simp add: frogfs_get_entry_def tie_hashes tie_fields tie_bsearch tie_rewind tie_walk)
  from tie_init t r tie_paths tie_hashes a g show ?thesis
    by (intro conjI)
qed

end
